theory Spec2Isabelle
  imports Main "HOL-Library.Signed_Division"
begin

section \<open>Process ID management (kern/thread/pid.c)\<close>

subsection \<open>Constants of the missing headers\<close>

text \<open>
  \<^verbatim>\<open>pid.c\<close> uses constants of headers that are not part of the sources at hand
  (\<^verbatim>\<open>limits.h\<close>, \<^verbatim>\<open>pid.h\<close>, \<^verbatim>\<open>kern/wait.h\<close>). They are parameters of the model:
  every function below takes the record of constants as its first argument.
\<close>

record kconsts =
  PID_MIN :: int
  PID_MAX :: int
  PROCS_MAX :: int
  INVALID_PID :: int
  BOOTUP_PID :: int
  WNOHANG :: int

text \<open>
  The error numbers of \<^verbatim>\<open>kern/errno.h\<close> are kept symbolic. A C function of this file
  returns a plain integer (\<open>Val\<close>), an error number (\<open>Pos\<close>, as \<^verbatim>\<open>return EAGAIN\<close>)
  or a negated error number (\<open>Neg\<close>, as \<^verbatim>\<open>return -EINVAL\<close>).
\<close>

datatype errno = EAGAIN | ENOMEM | EINVAL | ESRCH | EDEADLK

datatype cret = Val int | Pos errno | Neg errno

subsection \<open>Data\<close>

text \<open>
  \<^verbatim>\<open>struct pidinfo\<close>. The condition variable \<^verbatim>\<open>pi_cv\<close> is an opaque handle with no
  state of its own in a sequential model; it is left out.
\<close>

record pidinfo =
  pi_pid :: int
  pi_ppid :: int
  pi_exited :: bool
  pi_exitstatus :: int
  detached :: bool

text \<open>
  The globals: \<^verbatim>\<open>pidlock\<close> (true when the running thread holds it), the table
  \<^verbatim>\<open>pidinfo[PROCS_MAX]\<close> (\<open>None\<close> is \<^verbatim>\<open>NULL\<close>), \<^verbatim>\<open>nextpid\<close> and \<^verbatim>\<open>nprocs\<close>.
  \<open>destroyed\<close> logs every record handed to \<^verbatim>\<open>kfree\<close> by \<^verbatim>\<open>pidinfo_destroy\<close>, as
  it was at that moment.
\<close>

record pidstate =
  pidlock :: bool
  pidinfo :: "pidinfo option list"
  nextpid :: int
  nprocs :: int
  destroyed :: "pidinfo list"

text \<open>
  What stops a kernel function instead of returning: a failed \<^verbatim>\<open>KASSERT\<close>, a
  \<^verbatim>\<open>panic\<close>, an array access out of bounds, a \<^verbatim>\<open>NULL\<close> dereference, an access through
  a pointer to a freed record, and an acquire of a lock the thread already holds.
\<close>

datatype fault = AssertFailed | Panic | OutOfBounds | NullDeref | UseAfterFree | SelfDeadlock

type_synonym 'a kres = "fault + 'a"

definition kbind :: "'a kres \<Rightarrow> ('a \<Rightarrow> 'b kres) \<Rightarrow> 'b kres" where
  "kbind m f = (case m of Inl e \<Rightarrow> Inl e | Inr x \<Rightarrow> f x)"

definition KASSERT :: "bool \<Rightarrow> 'a kres \<Rightarrow> 'a kres" where
  "KASSERT b k = (if b then k else Inl AssertFailed)"

subsection \<open>Lock and condition variable\<close>

text \<open>
  Modelled from the spec: \<^verbatim>\<open>lock_acquire\<close>, \<^verbatim>\<open>lock_release\<close>, \<^verbatim>\<open>cv_broadcast\<close>
  and \<^verbatim>\<open>cv_wait\<close> (of \<^verbatim>\<open>synch.c\<close>, which is missing). The lock is a
  mutual-exclusion lock: one thread runs here, so acquiring takes the free lock, and
  acquiring a lock the thread holds never returns. Releasing and broadcasting need the
  lock held. \<^verbatim>\<open>cv_wait\<close> gives up the lock and suspends the caller; it has no
  definition of its own and shows as the result \<open>Asleep\<close> of \<^verbatim>\<open>pid_join\<close> below.
\<close>

definition lock_acquire :: "pidstate \<Rightarrow> pidstate kres" where
  "lock_acquire s = (if pidlock s then Inl SelfDeadlock else Inr (s\<lparr>pidlock := True\<rparr>))"

definition lock_release :: "pidstate \<Rightarrow> pidstate kres" where
  "lock_release s = KASSERT (pidlock s) (Inr (s\<lparr>pidlock := False\<rparr>))"

definition cv_broadcast :: "pidstate \<Rightarrow> pidstate kres" where
  "cv_broadcast s = KASSERT (pidlock s) (Inr s)"

subsection \<open>The table\<close>

text \<open>
  \<^verbatim>\<open>pid % PROCS_MAX\<close> is C's remainder, which truncates towards zero (\<open>smod\<close>).
  Reading or writing \<^verbatim>\<open>pidinfo[i]\<close> outside the array is a fault.
\<close>

definition slot :: "kconsts \<Rightarrow> int \<Rightarrow> int" where
  "slot K pid = pid smod PROCS_MAX K"

definition tab_read :: "pidstate \<Rightarrow> int \<Rightarrow> pidinfo option kres" where
  "tab_read s i =
     (if 0 \<le> i \<and> i < int (length (pidinfo s)) then Inr (pidinfo s ! nat i)
      else Inl OutOfBounds)"

definition tab_write :: "pidstate \<Rightarrow> int \<Rightarrow> pidinfo option \<Rightarrow> pidstate kres" where
  "tab_write s i v =
     (if 0 \<le> i \<and> i < int (length (pidinfo s))
      then Inr (s\<lparr>pidinfo := (pidinfo s)[nat i := v]\<rparr>)
      else Inl OutOfBounds)"

text \<open>
  A \<^verbatim>\<open>struct pidinfo *\<close> that \<^verbatim>\<open>pi_get pid\<close> returned is represented by \<open>pid\<close>: it
  points to the record with that \<^verbatim>\<open>pi_pid\<close> in slot \<^verbatim>\<open>pid % PROCS_MAX\<close>. No
  function writes \<^verbatim>\<open>pi_pid\<close> after creation, only \<^verbatim>\<open>pi_drop\<close> frees a record, and it
  clears the slot; no record is created while such a pointer is in use. So the pointer
  dangles exactly when the slot no longer holds a record with that pid, and a read
  (\<open>deref\<close>) or write (\<open>store\<close>) through it is then a use after free.
\<close>

definition deref :: "kconsts \<Rightarrow> int \<Rightarrow> pidstate \<Rightarrow> pidinfo kres" where
  "deref K p s =
     kbind (tab_read s (slot K p)) (\<lambda>e.
       case e of None \<Rightarrow> Inl UseAfterFree
       | Some r \<Rightarrow> if pi_pid r = p then Inr r else Inl UseAfterFree)"

definition store :: "kconsts \<Rightarrow> int \<Rightarrow> (pidinfo \<Rightarrow> pidinfo) \<Rightarrow> pidstate \<Rightarrow> pidstate kres" where
  "store K p f s =
     kbind (deref K p s) (\<lambda>r. tab_write s (slot K p) (Some (f r)))"

subsection \<open>Creating and destroying records\<close>

text \<open>
  \<^verbatim>\<open>pidinfo_create\<close>. \<open>km\<close> is what \<^verbatim>\<open>kmalloc\<close> returns: \<open>None\<close> is \<^verbatim>\<open>NULL\<close>,
  \<open>Some raw\<close> a block whose bytes read as the record \<open>raw\<close> (\<^verbatim>\<open>kmalloc\<close> does not
  clear memory). \<open>cv\<close> tells whether \<^verbatim>\<open>cv_create\<close> succeeds. The function assigns
  \<^verbatim>\<open>pi_pid\<close>, \<^verbatim>\<open>pi_ppid\<close>, \<^verbatim>\<open>pi_exited\<close> and \<^verbatim>\<open>pi_exitstatus\<close> (\<^verbatim>\<open>0xbaad\<close> is 47789)
  and nothing else. The result \<open>None\<close> is \<^verbatim>\<open>NULL\<close>.
\<close>

definition pidinfo_create ::
  "kconsts \<Rightarrow> int \<Rightarrow> int \<Rightarrow> pidinfo option \<Rightarrow> bool \<Rightarrow> pidinfo option kres" where
  "pidinfo_create K pid ppid km cv =
     KASSERT (pid \<noteq> INVALID_PID K)
       (case km of None \<Rightarrow> Inr None
        | Some raw \<Rightarrow>
            if \<not> cv then Inr None
            else Inr (Some (raw\<lparr>pi_pid := pid, pi_ppid := ppid, pi_exited := False,
                                 pi_exitstatus := 47789\<rparr>)))"

definition pidinfo_destroy :: "kconsts \<Rightarrow> pidinfo \<Rightarrow> pidstate \<Rightarrow> pidstate kres" where
  "pidinfo_destroy K pi s =
     KASSERT (pi_exited pi = True)
    (KASSERT (pi_ppid pi = INVALID_PID K)
       (Inr (s\<lparr>destroyed := destroyed s @ [pi]\<rparr>)))"

text \<open>
  \<^verbatim>\<open>pid_bootstrap\<close>. \<open>lk\<close> tells whether \<^verbatim>\<open>lock_create\<close> succeeds.
\<close>

definition pid_bootstrap :: "kconsts \<Rightarrow> bool \<Rightarrow> pidinfo option \<Rightarrow> bool \<Rightarrow> pidstate kres" where
  "pid_bootstrap K lk km cv =
     (if \<not> lk then Inl Panic
      else
        let s = \<lparr>pidlock = False, pidinfo = replicate (nat (PROCS_MAX K)) None,
                 nextpid = 0, nprocs = 0, destroyed = []\<rparr>
        in kbind (pidinfo_create K (BOOTUP_PID K) (INVALID_PID K) km cv) (\<lambda>pi.
           kbind (tab_write s (BOOTUP_PID K) pi) (\<lambda>s1.
             if pi = None then Inl Panic
             else Inr (s1\<lparr>nextpid := PID_MIN K, nprocs := 1\<rparr>))))"

definition pi_get :: "kconsts \<Rightarrow> int \<Rightarrow> pidstate \<Rightarrow> pidinfo option kres" where
  "pi_get K pid s =
     KASSERT (pid \<ge> 0)
    (KASSERT (pid \<noteq> INVALID_PID K)
    (KASSERT (pidlock s)
       (kbind (tab_read s (slot K pid)) (\<lambda>pi.
          case pi of None \<Rightarrow> Inr None
          | Some r \<Rightarrow> if pi_pid r \<noteq> pid then Inr None else Inr (Some r)))))"

definition pi_put :: "kconsts \<Rightarrow> int \<Rightarrow> pidinfo \<Rightarrow> pidstate \<Rightarrow> pidstate kres" where
  "pi_put K pid pi s =
     KASSERT (pidlock s)
    (KASSERT (pid \<noteq> INVALID_PID K)
       (kbind (tab_read s (slot K pid)) (\<lambda>old.
          KASSERT (old = None)
            (kbind (tab_write s (slot K pid) (Some pi)) (\<lambda>s1.
               Inr (s1\<lparr>nprocs := nprocs s1 + 1\<rparr>))))))"

definition pi_drop :: "kconsts \<Rightarrow> int \<Rightarrow> pidstate \<Rightarrow> pidstate kres" where
  "pi_drop K pid s =
     KASSERT (pidlock s)
       (kbind (tab_read s (slot K pid)) (\<lambda>pi.
          case pi of None \<Rightarrow> Inl AssertFailed
          | Some r \<Rightarrow>
              KASSERT (pi_pid r = pid)
                (kbind (pidinfo_destroy K r s) (\<lambda>s1.
                 kbind (tab_write s1 (slot K pid) None) (\<lambda>s2.
                   Inr (s2\<lparr>nprocs := nprocs s2 - 1\<rparr>))))))"

subsection \<open>Allocation\<close>

definition inc_nextpid :: "kconsts \<Rightarrow> pidstate \<Rightarrow> pidstate kres" where
  "inc_nextpid K s =
     KASSERT (pidlock s)
       (let n = nextpid s + 1
        in Inr (s\<lparr>nextpid := (if n > PID_MAX K then PID_MIN K else n)\<rparr>))"

text \<open>
  The \<^verbatim>\<open>while\<close> loop of \<^verbatim>\<open>pid_alloc\<close>, with its counter: it stops at the first
  candidate \<^verbatim>\<open>nextpid\<close> whose slot is empty, and the assertion bounds the number of
  rounds.
\<close>

function alloc_scan :: "kconsts \<Rightarrow> pidstate \<Rightarrow> int \<Rightarrow> pidstate kres" where
  "alloc_scan K s count =
     (case tab_read s (slot K (nextpid s)) of
        Inl e \<Rightarrow> Inl e
      | Inr None \<Rightarrow> Inr s
      | Inr (Some r) \<Rightarrow>
          if \<not> count < PROCS_MAX K * 2 + 5 then Inl AssertFailed
          else (case inc_nextpid K s of
                  Inl e \<Rightarrow> Inl e
                | Inr s' \<Rightarrow> alloc_scan K s' (count + 1)))"
  by pat_completeness auto
termination
  by (relation "measure (\<lambda>(K, s, count). nat (PROCS_MAX K * 2 + 5 - count))") auto

declare alloc_scan.simps [simp del]

text \<open>
  \<^verbatim>\<open>pid_alloc\<close>, called by the thread with pid \<open>cur\<close> (\<^verbatim>\<open>curthread->t_pid\<close>). The
  result holds the state, the returned integer and what was stored in \<^verbatim>\<open>*retval\<close>
  (\<open>None\<close>: nothing was stored).
\<close>

definition pid_alloc ::
  "kconsts \<Rightarrow> int \<Rightarrow> pidinfo option \<Rightarrow> bool \<Rightarrow> pidstate \<Rightarrow> (pidstate \<times> cret \<times> int option) kres" where
  "pid_alloc K cur km cv s =
     KASSERT (cur \<noteq> INVALID_PID K)
       (kbind (lock_acquire s) (\<lambda>s1.
          if nprocs s1 = PROCS_MAX K
          then kbind (lock_release s1) (\<lambda>s2. Inr (s2, Pos EAGAIN, None))
          else
            kbind (alloc_scan K s1 0) (\<lambda>s2.
              let pid = nextpid s2
              in kbind (pidinfo_create K pid cur km cv) (\<lambda>pi.
                   case pi of
                     None \<Rightarrow> kbind (lock_release s2) (\<lambda>s3. Inr (s3, Pos ENOMEM, None))
                   | Some r \<Rightarrow>
                       kbind (pi_put K pid r s2) (\<lambda>s3.
                       kbind (inc_nextpid K s3) (\<lambda>s4.
                       kbind (lock_release s4) (\<lambda>s5.
                         Inr (s5, Val 0, Some pid))))))))"

text \<open>\<^verbatim>\<open>pid_unalloc\<close> (\<^verbatim>\<open>0xdead\<close> is 57005).\<close>

definition pid_unalloc :: "kconsts \<Rightarrow> int \<Rightarrow> int \<Rightarrow> pidstate \<Rightarrow> pidstate kres" where
  "pid_unalloc K cur theirpid s =
     KASSERT (theirpid \<ge> PID_MIN K \<and> theirpid \<le> PID_MAX K)
       (kbind (lock_acquire s) (\<lambda>s1.
        kbind (pi_get K theirpid s1) (\<lambda>them.
          case them of None \<Rightarrow> Inl AssertFailed
          | Some t \<Rightarrow>
              KASSERT (pi_exited t = False)
             (KASSERT (pi_ppid t = cur)
                (kbind (store K theirpid
                          (\<lambda>r. r\<lparr>pi_exitstatus := 57005, pi_exited := True,
                                  pi_ppid := INVALID_PID K\<rparr>) s1) (\<lambda>s2.
                 kbind (pi_drop K theirpid s2) (\<lambda>s3.
                   lock_release s3)))))))"

subsection \<open>Detach, exit, join\<close>

definition pid_detach :: "kconsts \<Rightarrow> int \<Rightarrow> int \<Rightarrow> pidstate \<Rightarrow> (pidstate \<times> cret) kres" where
  "pid_detach K cur childpid s =
     kbind (lock_acquire s) (\<lambda>s1.
       if childpid = INVALID_PID K \<or> childpid = BOOTUP_PID K \<or> childpid < PID_MIN K
       then kbind (lock_release s1) (\<lambda>s2. Inr (s2, Neg EINVAL))
       else
         kbind (pi_get K childpid s1) (\<lambda>child_pid.
           case child_pid of
             None \<Rightarrow> kbind (lock_release s1) (\<lambda>s2. Inr (s2, Neg ESRCH))
           | Some c \<Rightarrow>
               if pi_ppid c = INVALID_PID K
               then kbind (lock_release s1) (\<lambda>s2. Inr (s2, Neg EINVAL))
               else if pi_ppid c \<noteq> cur
               then kbind (lock_release s1) (\<lambda>s2. Inr (s2, Neg EINVAL))
               else
                 kbind (store K childpid
                          (\<lambda>r. r\<lparr>pi_ppid := INVALID_PID K, detached := True\<rparr>) s1) (\<lambda>s2.
                 kbind (if pi_exited c = True then pi_drop K (pi_pid c) s2 else Inr s2) (\<lambda>s3.
                 kbind (lock_release s3) (\<lambda>s4.
                   Inr (s4, Val 0))))))"

text \<open>
  The body of the \<^verbatim>\<open>for\<close> loop of \<^verbatim>\<open>pid_exit\<close> for one \<open>i\<close>, and the loop from \<open>i\<close>
  on, which runs while \<^verbatim>\<open>i < PID_MAX\<close>. \<^verbatim>\<open>my_pi\<close> points to the record of \<open>cur\<close>.
\<close>

definition exit_body :: "kconsts \<Rightarrow> int \<Rightarrow> int \<Rightarrow> pidstate \<Rightarrow> pidstate kres" where
  "exit_body K cur i s =
     kbind (pi_get K i s) (\<lambda>this_pid.
       case this_pid of None \<Rightarrow> Inr s
       | Some t \<Rightarrow>
           kbind (deref K cur s) (\<lambda>my_pi.
             if pi_ppid t = pi_pid my_pi
             then
               kbind (lock_release s) (\<lambda>s1.
               kbind (pid_detach K cur (pi_pid t) s1) (\<lambda>(s2, r).
               kbind (lock_acquire s2) (\<lambda>s3.
                 store K i (\<lambda>r. r\<lparr>detached := True\<rparr>) s3)))
             else Inr s))"

function exit_loop :: "kconsts \<Rightarrow> int \<Rightarrow> int \<Rightarrow> pidstate \<Rightarrow> pidstate kres" where
  "exit_loop K cur i s =
     (if i < PID_MAX K
      then (case exit_body K cur i s of
              Inl e \<Rightarrow> Inl e
            | Inr s' \<Rightarrow> exit_loop K cur (i + 1) s')
      else Inr s)"
  by pat_completeness auto
termination
  by (relation "measure (\<lambda>(K, cur, i, s). nat (PID_MAX K - i))") auto

declare exit_loop.simps [simp del]

definition pid_exit :: "kconsts \<Rightarrow> int \<Rightarrow> int \<Rightarrow> bool \<Rightarrow> pidstate \<Rightarrow> pidstate kres" where
  "pid_exit K cur status dodetach s =
     kbind (lock_acquire s) (\<lambda>s1.
     kbind (pi_get K cur s1) (\<lambda>my_pi.
       case my_pi of None \<Rightarrow> Inl AssertFailed
       | Some m \<Rightarrow>
           kbind (store K cur (\<lambda>r. r\<lparr>pi_exited := True, pi_exitstatus := status\<rparr>) s1) (\<lambda>s2.
           kbind (if dodetach then exit_loop K cur (PID_MIN K) s2 else Inr s2) (\<lambda>s3.
           kbind (deref K cur s3) (\<lambda>m1.
           kbind (cv_broadcast s3) (\<lambda>s4.
           kbind (deref K cur s4) (\<lambda>m2.
           kbind (if detached m2
                  then kbind (store K cur (\<lambda>r. r\<lparr>pi_ppid := INVALID_PID K\<rparr>) s4) (\<lambda>s5.
                       kbind (deref K cur s5) (\<lambda>m3. pi_drop K (pi_pid m3) s5))
                  else Inr s4) (\<lambda>s6.
             lock_release s6))))))))"

text \<open>
  \<^verbatim>\<open>pid_join\<close>. \<open>status\<close> is the pointer argument: \<open>None\<close> is \<^verbatim>\<open>NULL\<close>, \<open>Some v\<close> a
  valid destination that holds \<open>v\<close>. The call either returns (\<open>Returned\<close>: the state,
  the returned integer, and what the destination holds afterwards) or suspends the
  caller in \<^verbatim>\<open>cv_wait\<close>, which gives up the lock (\<open>Asleep\<close>). \<open>pid_join_wake\<close> is the
  rest of the function, from the return of \<^verbatim>\<open>cv_wait\<close> (which takes the lock again) on,
  in the state found then.
\<close>

datatype join_result = Returned pidstate cret "int option" | Asleep pidstate

definition join_finish ::
  "kconsts \<Rightarrow> int \<Rightarrow> int option \<Rightarrow> pidstate \<Rightarrow> join_result kres" where
  "join_finish K targetpid status s =
     kbind (case status of
              None \<Rightarrow> Inr None
            | Some v \<Rightarrow> kbind (deref K targetpid s) (\<lambda>t. Inr (Some (pi_exitstatus t)))) (\<lambda>st.
     kbind (lock_release s) (\<lambda>s1.
       Inr (Returned s1 (Val targetpid) st)))"

definition pid_join ::
  "kconsts \<Rightarrow> int \<Rightarrow> int \<Rightarrow> int option \<Rightarrow> int \<Rightarrow> pidstate \<Rightarrow> join_result kres" where
  "pid_join K cur targetpid status flags s =
     kbind (lock_acquire s) (\<lambda>s1.
       if targetpid = INVALID_PID K \<or> targetpid = BOOTUP_PID K \<or> targetpid < PID_MIN K
          \<or> targetpid > PID_MAX K
       then kbind (lock_release s1) (\<lambda>s2. Inr (Returned s2 (Neg EINVAL) status))
       else
         kbind (pi_get K targetpid s1) (\<lambda>target_pid.
           case target_pid of
             None \<Rightarrow> kbind (lock_release s1) (\<lambda>s2. Inr (Returned s2 (Neg ESRCH) status))
           | Some t \<Rightarrow>
               if pi_ppid t = INVALID_PID K
               then kbind (lock_release s1) (\<lambda>s2. Inr (Returned s2 (Neg EINVAL) status))
               else if targetpid = cur
               then kbind (lock_release s1) (\<lambda>s2. Inr (Returned s2 (Neg EDEADLK) status))
               else if pi_exited t = False
               then
                 (if flags = WNOHANG K
                  then (case status of
                          None \<Rightarrow> Inl NullDeref
                        | Some v \<Rightarrow>
                            kbind (lock_release s1) (\<lambda>s2. Inr (Returned s2 (Val 0) (Some 0))))
                  else Inr (Asleep (s1\<lparr>pidlock := False\<rparr>)))
               else join_finish K targetpid status s1))"

definition pid_join_wake ::
  "kconsts \<Rightarrow> int \<Rightarrow> int option \<Rightarrow> pidstate \<Rightarrow> join_result kres" where
  "pid_join_wake K targetpid status s =
     kbind (lock_acquire s) (\<lambda>s1. join_finish K targetpid status s1)"

text \<open>\<^verbatim>\<open>target_parent\<close>: each of its three lock operations is \<^verbatim>\<open>lock_acquire\<close>.\<close>

definition target_parent :: "kconsts \<Rightarrow> int \<Rightarrow> int \<Rightarrow> pidstate \<Rightarrow> (pidstate \<times> cret) kres" where
  "target_parent K targetpid parentpid s =
     kbind (lock_acquire s) (\<lambda>s1.
     kbind (pi_get K targetpid s1) (\<lambda>target_pid.
       case target_pid of None \<Rightarrow> Inl NullDeref
       | Some t \<Rightarrow>
           if pi_ppid t = parentpid
           then kbind (lock_acquire s1) (\<lambda>s2. Inr (s2, Val 1))
           else kbind (lock_acquire s1) (\<lambda>s2. Inr (s2, Val 0))))"

subsection \<open>Well-formed constants and tables\<close>

text \<open>
  What the theorems assume of the constants: the table has a slot, the ``no pid''
  value and the bootstrap pid are distinct, not negative and below the pid range, the
  bootstrap pid indexes the table, the pid range is at least as wide as the table,
  and \<^verbatim>\<open>PID_MAX + 1\<close> and \<^verbatim>\<open>PROCS_MAX*2+5\<close> are values of a 32-bit \<^verbatim>\<open>int\<close>.
  Then \<^verbatim>\<open>nextpid++\<close>, \<^verbatim>\<open>count++\<close>, \<^verbatim>\<open>nprocs++\<close> and the loop variable of
  \<^verbatim>\<open>pid_exit\<close> do not overflow, which is why \<^verbatim>\<open>pid_t\<close> and \<^verbatim>\<open>int\<close> are modelled
  by \<open>int\<close>.
\<close>

definition consts_ok :: "kconsts \<Rightarrow> bool" where
  "consts_ok K \<longleftrightarrow>
     0 < PROCS_MAX K \<and> 0 \<le> INVALID_PID K \<and> INVALID_PID K < PID_MIN K \<and>
     0 \<le> BOOTUP_PID K \<and> BOOTUP_PID K < PID_MIN K \<and> BOOTUP_PID K < PROCS_MAX K \<and>
     INVALID_PID K \<noteq> BOOTUP_PID K \<and> PID_MIN K + PROCS_MAX K - 1 \<le> PID_MAX K \<and>
     PID_MAX K < 2147483647 \<and> PROCS_MAX K * 2 + 5 \<le> 2147483647"

text \<open>\<open>live K s pid r\<close>: the table holds the record \<open>r\<close> for \<open>pid\<close>, in the slot of \<open>pid\<close>.\<close>

definition live :: "kconsts \<Rightarrow> pidstate \<Rightarrow> int \<Rightarrow> pidinfo \<Rightarrow> bool" where
  "live K s pid r \<longleftrightarrow> tab_read s (slot K pid) = Inr (Some r) \<and> pi_pid r = pid"

text \<open>
  \<open>occupied s\<close> counts the slots in use. A well-formed table is unlocked, has
  \<^verbatim>\<open>PROCS_MAX\<close> slots, its cursor \<^verbatim>\<open>nextpid\<close> is in the pid range, \<^verbatim>\<open>nprocs\<close> is
  the number of slots in use, and every record sits in the slot of its pid.
\<close>

definition occupied :: "pidstate \<Rightarrow> nat" where
  "occupied s = length (filter (\<lambda>e. e \<noteq> None) (pidinfo s))"

definition table_ok :: "kconsts \<Rightarrow> pidstate \<Rightarrow> bool" where
  "table_ok K s \<longleftrightarrow>
     \<not> pidlock s \<and> length (pidinfo s) = nat (PROCS_MAX K) \<and>
     PID_MIN K \<le> nextpid s \<and> nextpid s \<le> PID_MAX K \<and>
     nprocs s = int (occupied s) \<and>
     (\<forall>j < length (pidinfo s). \<forall>r. pidinfo s ! j = Some r \<longrightarrow>
        0 \<le> pi_pid r \<and> slot K (pi_pid r) = int j)"

text \<open>
  \<open>destroys_ok K s s'\<close>: from \<open>s\<close> to \<open>s'\<close> the log of destroyed records only grew, and
  each record added had exited and had no parent when it was destroyed.
\<close>

definition destroys_ok :: "kconsts \<Rightarrow> pidstate \<Rightarrow> pidstate \<Rightarrow> bool" where
  "destroys_ok K s s' \<longleftrightarrow>
     (\<exists>ds. destroyed s' = destroyed s @ ds \<and>
           (\<forall>r \<in> set ds. pi_exited r \<and> pi_ppid r = INVALID_PID K))"

text \<open>
  The calls into this file, with the calling thread's pid first where the function
  reads \<^verbatim>\<open>curthread->t_pid\<close>, and the state a call leaves when it returns (or when
  \<^verbatim>\<open>pid_join\<close> suspends).
\<close>

datatype call =
    Alloc int "pidinfo option" bool
  | Unalloc int int
  | Detach int int
  | Exit int int bool
  | Join int int "int option" int
  | JoinWake int "int option"
  | TargetParent int int

fun join_state :: "join_result \<Rightarrow> pidstate" where
  "join_state (Returned s r st) = s"
| "join_state (Asleep s) = s"

fun state_after :: "kconsts \<Rightarrow> call \<Rightarrow> pidstate \<Rightarrow> pidstate kres" where
  "state_after K (Alloc cur km cv) s = kbind (pid_alloc K cur km cv s) (\<lambda>(s', r, out). Inr s')"
| "state_after K (Unalloc cur theirpid) s = pid_unalloc K cur theirpid s"
| "state_after K (Detach cur childpid) s = kbind (pid_detach K cur childpid s) (\<lambda>(s', r). Inr s')"
| "state_after K (Exit cur status dodetach) s = pid_exit K cur status dodetach s"
| "state_after K (Join cur targetpid status flags) s =
     kbind (pid_join K cur targetpid status flags s) (\<lambda>j. Inr (join_state j))"
| "state_after K (JoinWake targetpid status) s =
     kbind (pid_join_wake K targetpid status s) (\<lambda>j. Inr (join_state j))"
| "state_after K (TargetParent targetpid parentpid) s =
     kbind (target_parent K targetpid parentpid s) (\<lambda>(s', r). Inr s')"

subsection \<open>Example constants and states\<close>

text \<open>
  A small instance: a table of four slots and the pids 2 to 10. \<open>ex_boot\<close> is the state
  after \<^verbatim>\<open>pid_bootstrap\<close>, \<open>ex_child\<close> the state after the bootstrap thread allocated
  pid 2, \<open>ex_zombie\<close> the state after thread 2 exited with status 42, and \<open>ex_reaped\<close>
  the state after the bootstrap thread detached it then.
\<close>

definition exK :: kconsts where
  "exK = \<lparr>PID_MIN = 2, PID_MAX = 10, PROCS_MAX = 4, INVALID_PID = 0, BOOTUP_PID = 1,
          WNOHANG = 1\<rparr>"

definition ex_raw :: pidinfo where
  "ex_raw = \<lparr>pi_pid = 0, pi_ppid = 0, pi_exited = False, pi_exitstatus = 0, detached = False\<rparr>"

definition ex_bootrec :: pidinfo where
  "ex_bootrec = \<lparr>pi_pid = 1, pi_ppid = 0, pi_exited = False, pi_exitstatus = 47789,
                 detached = False\<rparr>"

definition ex_boot :: pidstate where
  "ex_boot = \<lparr>pidlock = False, pidinfo = [None, Some ex_bootrec, None, None],
              nextpid = 2, nprocs = 1, destroyed = []\<rparr>"

definition ex_child :: pidstate where
  "ex_child = \<lparr>pidlock = False,
               pidinfo = [None, Some ex_bootrec,
                          Some \<lparr>pi_pid = 2, pi_ppid = 1, pi_exited = False,
                                 pi_exitstatus = 47789, detached = False\<rparr>, None],
               nextpid = 3, nprocs = 2, destroyed = []\<rparr>"

definition ex_zombie :: pidstate where
  "ex_zombie = \<lparr>pidlock = False,
                pidinfo = [None, Some ex_bootrec,
                           Some \<lparr>pi_pid = 2, pi_ppid = 1, pi_exited = True,
                                  pi_exitstatus = 42, detached = False\<rparr>, None],
                nextpid = 3, nprocs = 2, destroyed = []\<rparr>"

definition ex_reaped :: pidstate where
  "ex_reaped = \<lparr>pidlock = False, pidinfo = [None, Some ex_bootrec, None, None],
                nextpid = 3, nprocs = 1,
                destroyed = [\<lparr>pi_pid = 2, pi_ppid = 0, pi_exited = True,
                               pi_exitstatus = 42, detached = True\<rparr>]\<rparr>"

text \<open>
  \<open>ex_dirty\<close> is a block of memory that was used before: every byte is set.
\<close>

definition ex_dirty :: pidinfo where
  "ex_dirty = \<lparr>pi_pid = 57005, pi_ppid = 57005, pi_exited = True, pi_exitstatus = 57005,
               detached = True\<rparr>"

text \<open>
  \<open>ex_family\<close>: thread 3, a child of the bootstrap thread, has the children 4 and 10,
  and 10 is \<^verbatim>\<open>PID_MAX\<close>.
\<close>

definition ex_family :: pidstate where
  "ex_family = \<lparr>pidlock = False,
                pidinfo = [Some \<lparr>pi_pid = 4, pi_ppid = 3, pi_exited = False,
                                  pi_exitstatus = 47789, detached = False\<rparr>,
                           Some ex_bootrec,
                           Some \<lparr>pi_pid = 10, pi_ppid = 3, pi_exited = False,
                                  pi_exitstatus = 47789, detached = False\<rparr>,
                           Some \<lparr>pi_pid = 3, pi_ppid = 1, pi_exited = False,
                                  pi_exitstatus = 47789, detached = False\<rparr>],
                nextpid = 2, nprocs = 4, destroyed = []\<rparr>"

section \<open>Properties\<close>

subsection \<open>Basic facts\<close>

lemma kbind_Inl [simp]: "kbind (Inl e) f = Inl e"
  by (simp add: kbind_def)

lemma kbind_Inr [simp]: "kbind (Inr x) f = f x"
  by (simp add: kbind_def)

lemma KASSERT_True [simp]: "KASSERT True k = k"
  by (simp add: KASSERT_def)

lemma KASSERT_False [simp]: "KASSERT False k = Inl AssertFailed"
  by (simp add: KASSERT_def)

lemma tab_read_lock [simp]: "tab_read (s\<lparr>pidlock := b\<rparr>) i = tab_read s i"
  by (simp add: tab_read_def)

lemma unlock_same: "\<not> pidlock s \<Longrightarrow> s\<lparr>pidlock := False\<rparr> = s"
  by (cases s) simp

lemma pi_get_live:
  "live K s pid r \<Longrightarrow> 0 \<le> pid \<Longrightarrow> pid \<noteq> INVALID_PID K \<Longrightarrow>
   pi_get K pid (s\<lparr>pidlock := True\<rparr>) = Inr (Some r)"
  by (simp add: pi_get_def live_def)

lemma deref_live: "live K s pid r \<Longrightarrow> deref K pid (s\<lparr>pidlock := b\<rparr>) = Inr r"
  by (simp add: deref_def live_def)

lemma consts_ok_exK: "consts_ok exK"
  by (simp add: consts_ok_def exK_def)

lemma slot_exK: "slot exK 2 = 2"
  by (simp add: slot_def exK_def signed_modulo_int_def)

lemma live_ex_child:
  "live exK ex_child 2
     \<lparr>pi_pid = 2, pi_ppid = 1, pi_exited = False, pi_exitstatus = 47789, detached = False\<rparr>"
  by (simp add: live_def slot_exK tab_read_def ex_child_def)

lemma live_ex_zombie:
  "live exK ex_zombie 2
     \<lparr>pi_pid = 2, pi_ppid = 1, pi_exited = True, pi_exitstatus = 42, detached = False\<rparr>"
  by (simp add: live_def slot_exK tab_read_def ex_zombie_def)

lemma kbind_InrE:
  assumes "kbind m f = Inr y"
  obtains x where "m = Inr x" and "f x = Inr y"
  using assms by (cases m) auto

lemma KASSERT_InrE:
  assumes "KASSERT b k = Inr y"
  obtains "b" and "k = Inr y"
  using assms by (cases b) auto

lemma lock_acquire_Inr: "lock_acquire s = Inr s' \<longleftrightarrow> \<not> pidlock s \<and> s' = s\<lparr>pidlock := True\<rparr>"
  by (auto simp: lock_acquire_def)

lemma lock_release_Inr: "lock_release s = Inr s' \<longleftrightarrow> pidlock s \<and> s' = s\<lparr>pidlock := False\<rparr>"
  by (auto simp: lock_release_def KASSERT_def)

lemma cv_broadcast_Inr: "cv_broadcast s = Inr s' \<longleftrightarrow> pidlock s \<and> s' = s"
  by (auto simp: cv_broadcast_def KASSERT_def)

lemma tab_write_Inr:
  "tab_write s i v = Inr s' \<longleftrightarrow>
     0 \<le> i \<and> i < int (length (pidinfo s)) \<and> s' = s\<lparr>pidinfo := (pidinfo s)[nat i := v]\<rparr>"
  by (auto simp: tab_write_def)

lemma inc_nextpid_Inr:
  "inc_nextpid K s = Inr s' \<longleftrightarrow>
     pidlock s \<and> s' = s\<lparr>nextpid := (if nextpid s + 1 > PID_MAX K then PID_MIN K else nextpid s + 1)\<rparr>"
  by (auto simp: inc_nextpid_def KASSERT_def Let_def)

lemma pidinfo_destroy_Inr:
  "pidinfo_destroy K r s = Inr s' \<longleftrightarrow>
     pi_exited r \<and> pi_ppid r = INVALID_PID K \<and> s' = s\<lparr>destroyed := destroyed s @ [r]\<rparr>"
  by (auto simp: pidinfo_destroy_def KASSERT_def)

lemmas ex_defs = slot_def signed_modulo_int_def exK_def ex_family_def ex_bootrec_def ex_raw_def
  ex_boot_def
lemmas op_defs = lock_acquire_def lock_release_def cv_broadcast_def tab_read_def tab_write_def
  deref_def store_def pidinfo_create_def pidinfo_destroy_def pi_get_def pi_put_def pi_drop_def
  inc_nextpid_def

subsection \<open>Join\<close>

text \<open>
  C7. A join on a target in the pid range whose record is in the table, has a parent
  (is not detached), is not the caller's own and has exited, returns the target's pid
  and stores the recorded exit status in the caller's destination. The state after the
  call is the state before it: the record stays in the table and nothing is destroyed.
  So the call made again, in the state the first call left and with the destination
  now holding the status, returns the same pid and status.
\<close>

theorem pid_join_exited:
  assumes "consts_ok K" and "\<not> pidlock s"
    and "PID_MIN K \<le> targetpid" and "targetpid \<le> PID_MAX K"
    and "live K s targetpid t"
    and "pi_ppid t \<noteq> INVALID_PID K" and "targetpid \<noteq> cur" and "pi_exited t"
  shows "pid_join K cur targetpid (Some v) flags s =
           Inr (Returned s (Val targetpid) (Some (pi_exitstatus t))) \<and>
         pid_join K cur targetpid (Some (pi_exitstatus t)) flags s =
           Inr (Returned s (Val targetpid) (Some (pi_exitstatus t)))"
proof -
  from assms have rng: "0 \<le> targetpid" "targetpid \<noteq> INVALID_PID K" "targetpid \<noteq> BOOTUP_PID K"
    by (auto simp: consts_ok_def)
  have "pid_join K cur targetpid (Some w) flags s =
          Inr (Returned s (Val targetpid) (Some (pi_exitstatus t)))" for w
    using assms(2-4,6-8) rng pi_get_live [OF assms(5) rng(1,2)] deref_live [OF assms(5), of True]
    by (simp add: pid_join_def lock_acquire_def join_finish_def lock_release_def unlock_same)
  then show ?thesis by simp
qed

theorem pid_join_exited_witness:
  "pid_join exK 1 2 (Some 7) 0 ex_zombie = Inr (Returned ex_zombie (Val 2) (Some 42))"
  using pid_join_exited [OF consts_ok_exK _ _ _ live_ex_zombie, of 1 7 0]
  by (simp add: exK_def ex_zombie_def)

text \<open>
  C10. The same join with a \<^verbatim>\<open>NULL\<close> status destination returns the target's pid as
  well; nothing is stored and the state is unchanged.
\<close>

theorem pid_join_exited_null_status:
  assumes "consts_ok K" and "\<not> pidlock s"
    and "PID_MIN K \<le> targetpid" and "targetpid \<le> PID_MAX K"
    and "live K s targetpid t"
    and "pi_ppid t \<noteq> INVALID_PID K" and "targetpid \<noteq> cur" and "pi_exited t"
  shows "pid_join K cur targetpid None flags s = Inr (Returned s (Val targetpid) None)"
proof -
  from assms have rng: "0 \<le> targetpid" "targetpid \<noteq> INVALID_PID K" "targetpid \<noteq> BOOTUP_PID K"
    by (auto simp: consts_ok_def)
  show ?thesis
    using assms(2-4,6-8) rng pi_get_live [OF assms(5) rng(1,2)]
    by (simp add: pid_join_def lock_acquire_def join_finish_def lock_release_def unlock_same)
qed

theorem pid_join_exited_null_status_witness:
  "pid_join exK 1 2 None 0 ex_zombie = Inr (Returned ex_zombie (Val 2) None)"
  using pid_join_exited_null_status [OF consts_ok_exK _ _ _ live_ex_zombie, of 1 0]
  by (simp add: exK_def ex_zombie_def)

text \<open>
  C5, as the code has it. A join with \<^verbatim>\<open>flags == WNOHANG\<close> and a valid status
  destination, on a target in the pid range whose record is in the table, has a parent,
  is not the caller's own and has not exited, returns 0 at once: the caller is not
  suspended, 0 is neither an error nor the target's pid, the state is unchanged, and
  the destination is overwritten with 0.
\<close>

theorem pid_join_wnohang:
  assumes "consts_ok K" and "\<not> pidlock s"
    and "PID_MIN K \<le> targetpid" and "targetpid \<le> PID_MAX K"
    and "live K s targetpid t"
    and "pi_ppid t \<noteq> INVALID_PID K" and "targetpid \<noteq> cur" and "\<not> pi_exited t"
    and "flags = WNOHANG K"
  shows "pid_join K cur targetpid (Some v) flags s = Inr (Returned s (Val 0) (Some 0))
         \<and> targetpid \<noteq> 0"
proof -
  from assms have rng: "0 \<le> targetpid" "targetpid \<noteq> INVALID_PID K" "targetpid \<noteq> BOOTUP_PID K"
    "targetpid \<noteq> 0"
    by (auto simp: consts_ok_def)
  show ?thesis
    using assms(2-4,6-9) rng pi_get_live [OF assms(5) rng(1,2)]
    by (simp add: pid_join_def lock_acquire_def lock_release_def unlock_same)
qed

theorem pid_join_wnohang_witness:
  "pid_join exK 1 2 (Some 77) 1 ex_child = Inr (Returned ex_child (Val 0) (Some 0))"
  using pid_join_wnohang [OF consts_ok_exK _ _ _ live_ex_child, of 1 1 77]
  by (simp add: exK_def ex_child_def)

text \<open>
  C5 as stated fails: the destination held 77 before the call and holds 0 after it, so
  it was written.
\<close>

theorem pid_join_wnohang_writes_status:
  "pid_join exK 1 2 (Some 77) (WNOHANG exK) ex_child
     = Inr (Returned ex_child (Val 0) (Some 0))
   \<and> (Some 0 :: int option) \<noteq> Some 77"
  by (simp add: pid_join_def lock_acquire_def lock_release_def pi_get_def tab_read_def
      slot_def signed_modulo_int_def exK_def ex_child_def ex_bootrec_def)

subsection \<open>Destruction of records\<close>

lemma destroys_ok_refl: "destroys_ok K s s"
  by (simp add: destroys_ok_def)

lemma destroys_ok_same: "destroyed s' = destroyed s \<Longrightarrow> destroys_ok K s s'"
  by (simp add: destroys_ok_def)

lemma destroys_ok_trans: "destroys_ok K s s' \<Longrightarrow> destroys_ok K s' s'' \<Longrightarrow> destroys_ok K s s''"
  by (auto simp: destroys_ok_def)

lemma store_destroyed: "store K p f s = Inr s' \<Longrightarrow> destroyed s' = destroyed s"
  by (auto simp: store_def tab_write_Inr elim!: kbind_InrE)

lemma pi_put_destroyed: "pi_put K pid r s = Inr s' \<Longrightarrow> destroyed s' = destroyed s"
  by (auto simp: pi_put_def tab_write_Inr elim!: KASSERT_InrE kbind_InrE)

lemma pi_drop_destroyed:
  "pi_drop K pid s = Inr s' \<Longrightarrow>
   \<exists>r. destroyed s' = destroyed s @ [r] \<and> pi_exited r \<and> pi_ppid r = INVALID_PID K"
  by (auto simp: pi_drop_def tab_write_Inr pidinfo_destroy_Inr
      elim!: KASSERT_InrE kbind_InrE split: option.splits)

lemma alloc_scan_destroyed: "alloc_scan K s n = Inr s' \<Longrightarrow> destroyed s' = destroyed s"
proof (induction K s n rule: alloc_scan.induct)
  case (1 K s count)
  show ?case
  proof (cases "tab_read s (slot K (nextpid s))")
    case (Inl e)
    with "1.prems" show ?thesis by (simp add: alloc_scan.simps [of K s count])
  next
    case (Inr e)
    show ?thesis
    proof (cases e)
      case None
      with Inr "1.prems" show ?thesis by (simp add: alloc_scan.simps [of K s count])
    next
      case (Some r)
      from Inr Some "1.prems" have lt: "count < PROCS_MAX K * 2 + 5"
        by (simp add: alloc_scan.simps [of K s count] split: if_splits)
      from Inr Some "1.prems" lt obtain s1 where
        inc: "inc_nextpid K s = Inr s1" and rest: "alloc_scan K s1 (count + 1) = Inr s'"
        by (auto simp: alloc_scan.simps [of K s count] split: sum.splits)
      from "1.IH" [OF Inr Some _ inc rest] lt have "destroyed s' = destroyed s1" by simp
      with inc show ?thesis by (simp add: inc_nextpid_Inr)
    qed
  qed
qed

lemma pid_alloc_destroys_ok: "pid_alloc K cur km cv s = Inr (s', r, out) \<Longrightarrow> destroys_ok K s s'"
  by (auto simp: pid_alloc_def destroys_ok_def lock_acquire_Inr lock_release_Inr inc_nextpid_Inr
      Let_def
      elim!: kbind_InrE KASSERT_InrE split: if_splits option.splits
      dest!: alloc_scan_destroyed pi_put_destroyed)

lemma pid_unalloc_destroys_ok: "pid_unalloc K cur p s = Inr s' \<Longrightarrow> destroys_ok K s s'"
  by (auto simp: pid_unalloc_def destroys_ok_def lock_acquire_Inr lock_release_Inr
      elim!: kbind_InrE KASSERT_InrE split: if_splits option.splits
      dest!: store_destroyed pi_drop_destroyed)

lemma pid_detach_destroys_ok: "pid_detach K cur p s = Inr (s', r) \<Longrightarrow> destroys_ok K s s'"
  by (auto simp: pid_detach_def destroys_ok_def lock_acquire_Inr lock_release_Inr
      elim!: kbind_InrE split: if_splits option.splits
      dest!: store_destroyed pi_drop_destroyed)

lemma exit_body_destroys_ok: "exit_body K cur i s = Inr s' \<Longrightarrow> destroys_ok K s s'"
  by (auto simp: exit_body_def destroys_ok_def lock_acquire_Inr lock_release_Inr
      elim!: kbind_InrE split: if_splits option.splits
      dest!: store_destroyed pid_detach_destroys_ok)

lemma exit_loop_destroys_ok: "exit_loop K cur i s = Inr s' \<Longrightarrow> destroys_ok K s s'"
proof (induction K cur i s rule: exit_loop.induct)
  case (1 K cur i s)
  show ?case
  proof (cases "i < PID_MAX K")
    case True
    with "1.prems" obtain s1 where
      body: "exit_body K cur i s = Inr s1" and rest: "exit_loop K cur (i + 1) s1 = Inr s'"
      by (auto simp: exit_loop.simps [of K cur i s] split: sum.splits)
    from "1.IH" [OF True body rest] exit_body_destroys_ok [OF body]
    show ?thesis by (rule destroys_ok_trans [rotated])
  next
    case False
    with "1.prems" show ?thesis
      by (simp add: exit_loop.simps [of K cur i s] destroys_ok_refl)
  qed
qed

lemma pid_exit_destroys_ok: "pid_exit K cur st dd s = Inr s' \<Longrightarrow> destroys_ok K s s'"
  apply (auto simp: pid_exit_def lock_acquire_Inr lock_release_Inr cv_broadcast_Inr
      elim!: kbind_InrE split: if_splits option.splits
      dest!: store_destroyed pi_drop_destroyed exit_loop_destroys_ok)
     apply (auto simp: destroys_ok_def)
  done

lemma join_finish_destroyed:
  "join_finish K p st s = Inr j \<Longrightarrow> destroyed (join_state j) = destroyed s"
  by (auto simp: join_finish_def lock_release_Inr elim!: kbind_InrE split: option.splits)

lemma pid_join_destroys_ok:
  "pid_join K cur p st fl s = Inr j \<Longrightarrow> destroys_ok K s (join_state j)"
  by (auto simp: pid_join_def destroys_ok_def lock_acquire_Inr lock_release_Inr
      elim!: kbind_InrE split: if_splits option.splits dest!: join_finish_destroyed)

lemma pid_join_wake_destroys_ok:
  "pid_join_wake K p st s = Inr j \<Longrightarrow> destroys_ok K s (join_state j)"
  by (auto simp: pid_join_wake_def destroys_ok_def lock_acquire_Inr
      elim!: kbind_InrE dest!: join_finish_destroyed)

lemma target_parent_never_returns: "target_parent K t p s \<noteq> Inr x"
  by (auto simp: target_parent_def lock_acquire_Inr elim!: kbind_InrE
      split: option.splits if_splits)

lemma pid_detach_ex_zombie: "pid_detach exK 1 2 ex_zombie = Inr (ex_reaped, Val 0)"
  by (simp add: pid_detach_def lock_acquire_def lock_release_def pi_get_def tab_read_def
      store_def deref_def tab_write_def pi_drop_def pidinfo_destroy_def
      slot_def signed_modulo_int_def exK_def ex_zombie_def ex_reaped_def ex_bootrec_def)

text \<open>
  C1. Whatever call returns (or suspends, for a join), every record it destroyed had
  \<^verbatim>\<open>pi_exited\<close> true and \<^verbatim>\<open>pi_ppid == INVALID_PID\<close> at the moment it was
  destroyed: the log of destroyed records grows only by such records. This covers
  \<^verbatim>\<open>pid_exit\<close> of a detached thread, \<^verbatim>\<open>pid_detach\<close> of an exited one and
  \<^verbatim>\<open>pid_unalloc\<close>.
\<close>

theorem destroy_only_exited_orphans:
  assumes "state_after K c s = Inr s'"
  shows "\<exists>ds. destroyed s' = destroyed s @ ds \<and>
              (\<forall>r \<in> set ds. pi_exited r \<and> pi_ppid r = INVALID_PID K)"
proof -
  have "destroys_ok K s s'"
    using assms
    by (cases c)
      (auto elim!: kbind_InrE simp: target_parent_never_returns
        dest: pid_alloc_destroys_ok pid_unalloc_destroys_ok pid_detach_destroys_ok
          pid_exit_destroys_ok pid_join_destroys_ok pid_join_wake_destroys_ok)
  then show ?thesis by (simp add: destroys_ok_def)
qed

theorem destroy_only_exited_orphans_witness:
  "state_after exK (Detach 1 2) ex_zombie = Inr ex_reaped \<and>
   (\<exists>ds. destroyed ex_reaped = destroyed ex_zombie @ ds \<and> ds \<noteq> [] \<and>
         (\<forall>r \<in> set ds. pi_exited r \<and> pi_ppid r = INVALID_PID exK))"
proof -
  have run: "state_after exK (Detach 1 2) ex_zombie = Inr ex_reaped"
    by (simp add: pid_detach_ex_zombie)
  from destroy_only_exited_orphans [OF run] obtain ds where
    ds: "destroyed ex_reaped = destroyed ex_zombie @ ds"
      "\<forall>r \<in> set ds. pi_exited r \<and> pi_ppid r = INVALID_PID exK"
    by blast
  from ds(1) have "ds \<noteq> []"
    by (auto simp: ex_reaped_def ex_zombie_def)
  with run ds show ?thesis by blast
qed

subsection \<open>Detach\<close>

text \<open>
  C8, as the code has it. When a first \<^verbatim>\<open>pid_detach\<close> of a child succeeded, the same
  call made again fails: with \<^verbatim>\<open>-EINVAL\<close> when the child had not exited at the first
  call (its record stays, without a parent), and with \<^verbatim>\<open>-ESRCH\<close> when it had (the
  first call destroyed the record). It never returns 0, and it leaves the state as the
  first call left it.
\<close>

theorem pid_detach_twice:
  assumes "live K s childpid c" and "pid_detach K cur childpid s = Inr (s1, Val 0)"
  shows "pid_detach K cur childpid s1 =
           Inr (s1, Neg (if pi_exited c then ESRCH else EINVAL))"
proof -
  from assms(1) have rd: "tab_read s (slot K childpid) = Inr (Some c)" and pc: "pi_pid c = childpid"
    by (auto simp: live_def)
  from rd have bnd: "0 \<le> slot K childpid" "slot K childpid < int (length (pidinfo s))" 
    and nth: "pidinfo s ! nat (slot K childpid) = Some c"
    by (auto simp: tab_read_def split: if_splits)
  from assms(2) have free: "\<not> pidlock s"
    by (auto simp: pid_detach_def lock_acquire_def split: if_splits)
  from assms(2) free have ok: "childpid \<noteq> INVALID_PID K" "childpid \<noteq> BOOTUP_PID K" "\<not> childpid < PID_MIN K"
    by (auto simp: pid_detach_def lock_acquire_def lock_release_def split: if_splits)
  from assms(2) free ok have nn: "0 \<le> childpid"
    by (cases "0 \<le> childpid") (auto simp: pid_detach_def lock_acquire_def pi_get_def)
  have get: "pi_get K childpid (s\<lparr>pidlock := True\<rparr>) = Inr (Some c)"
    using rd pc nn ok by (simp add: pi_get_def)
  from assms(2) free ok get have par: "pi_ppid c \<noteq> INVALID_PID K" "pi_ppid c = cur"
    by (auto simp: pid_detach_def lock_acquire_def lock_release_def split: if_splits)
  show ?thesis
  proof (cases "pi_exited c")
    case True
    with assms(2) free ok get par rd pc bnd nth
    have s1: "s1 = s\<lparr>pidinfo := (pidinfo s)[nat (slot K childpid) := None],
                     destroyed := destroyed s @ [c\<lparr>pi_ppid := INVALID_PID K, detached := True\<rparr>],
                     nprocs := nprocs s - 1\<rparr>"
      by (cases s)
        (simp add: pid_detach_def lock_acquire_def lock_release_def store_def deref_def
          tab_write_def pi_drop_def tab_read_def pidinfo_destroy_def)
    show ?thesis
      using True free ok nn bnd
      by (simp add: s1 pid_detach_def lock_acquire_def lock_release_def pi_get_def tab_read_def)
  next
    case False
    with assms(2) free ok get par rd pc bnd nth
    have s1: "s1 = s\<lparr>pidinfo := (pidinfo s)[nat (slot K childpid) :=
                        Some (c\<lparr>pi_ppid := INVALID_PID K, detached := True\<rparr>)]\<rparr>"
      by (cases s)
        (simp add: pid_detach_def lock_acquire_def lock_release_def store_def deref_def
          tab_write_def pi_drop_def tab_read_def pidinfo_destroy_def)
    show ?thesis
      using False free ok nn bnd pc
      by (simp add: s1 pid_detach_def lock_acquire_def lock_release_def pi_get_def tab_read_def)
  qed
qed

theorem pid_detach_twice_witness:
  "pid_detach exK 1 2 ex_zombie = Inr (ex_reaped, Val 0) \<and>
   pid_detach exK 1 2 ex_reaped = Inr (ex_reaped, Neg ESRCH)"
  using pid_detach_twice [OF live_ex_zombie pid_detach_ex_zombie] pid_detach_ex_zombie
  by simp

text \<open>
  C8 as stated fails for a child that had exited: the second call returns
  \<^verbatim>\<open>-ESRCH\<close>, not \<^verbatim>\<open>-EINVAL\<close>.
\<close>

theorem pid_detach_twice_not_EINVAL:
  "pid_detach exK 1 2 ex_zombie = Inr (ex_reaped, Val 0) \<and>
   pid_detach exK 1 2 ex_reaped = Inr (ex_reaped, Neg ESRCH) \<and>
   Neg ESRCH \<noteq> Neg EINVAL"
  by (simp add: pid_detach_def lock_acquire_def lock_release_def pi_get_def tab_read_def
      store_def deref_def tab_write_def pi_drop_def pidinfo_destroy_def
      slot_def signed_modulo_int_def exK_def ex_zombie_def ex_reaped_def ex_bootrec_def)

text \<open>
  The argument check of \<^verbatim>\<open>pid_detach\<close> rejects \<^verbatim>\<open>INVALID_PID\<close>, \<^verbatim>\<open>BOOTUP_PID\<close>
  and every pid below \<^verbatim>\<open>PID_MIN\<close> with \<^verbatim>\<open>-EINVAL\<close>, the state unchanged. It has
  no test against \<^verbatim>\<open>PID_MAX\<close>: in a well-formed table whose pids are at most
  \<^verbatim>\<open>PID_MAX\<close>, a pid above \<^verbatim>\<open>PID_MAX\<close> is looked up, not found, and the call
  returns \<^verbatim>\<open>-ESRCH\<close>.
\<close>

lemma pid_detach_invalid_argument:
  assumes "\<not> pidlock s"
    and "childpid = INVALID_PID K \<or> childpid = BOOTUP_PID K \<or> childpid < PID_MIN K"
  shows "pid_detach K cur childpid s = Inr (s, Neg EINVAL)"
  using assms by (auto simp: pid_detach_def lock_acquire_def lock_release_def unlock_same)

lemma pid_detach_above_PID_MAX:
  assumes "consts_ok K" and "table_ok K s" and "PID_MAX K < childpid"
    and "\<forall>e \<in> set (pidinfo s). \<forall>r. e = Some r \<longrightarrow> pi_pid r \<le> PID_MAX K"
  shows "pid_detach K cur childpid s = Inr (s, Neg ESRCH)"
proof -
  from assms(1,3) have v: "childpid \<noteq> INVALID_PID K" "childpid \<noteq> BOOTUP_PID K"
    "\<not> childpid < PID_MIN K" "0 \<le> childpid" "0 < PROCS_MAX K"
    by (auto simp: consts_ok_def)
  from assms(2) have free: "\<not> pidlock s" and len: "length (pidinfo s) = nat (PROCS_MAX K)"
    by (auto simp: table_ok_def)
  have sl: "0 \<le> slot K childpid" "slot K childpid < int (length (pidinfo s))"
    using v len by (simp_all add: slot_def smod_int_compares)
  then have mem: "pidinfo s ! nat (slot K childpid) \<in> set (pidinfo s)"
    by simp
  have get: "pi_get K childpid (s\<lparr>pidlock := True\<rparr>) = Inr None"
    using v sl mem assms(3,4)
    by (cases "pidinfo s ! nat (slot K childpid)") (auto simp: pi_get_def tab_read_def)
  show ?thesis
    using v free get
    by (simp add: pid_detach_def lock_acquire_def lock_release_def unlock_same)
qed

text \<open>
  C6 at a pid above \<^verbatim>\<open>PID_MAX\<close>: \<^verbatim>\<open>pid_detach\<close> returns \<^verbatim>\<open>-ESRCH\<close> where the
  claim has \<^verbatim>\<open>-EINVAL\<close>.
\<close>

theorem pid_detach_above_PID_MAX_ESRCH:
  "PID_MAX exK < 11 \<and> pid_detach exK 1 11 ex_child = Inr (ex_child, Neg ESRCH)"
  by (simp add: pid_detach_def lock_acquire_def lock_release_def pi_get_def tab_read_def
      slot_def signed_modulo_int_def exK_def ex_child_def ex_bootrec_def)

subsection \<open>The lock\<close>

text \<open>
  Each of \<^verbatim>\<open>pid_alloc\<close>, \<^verbatim>\<open>pid_unalloc\<close>, \<^verbatim>\<open>pid_detach\<close>, \<^verbatim>\<open>pid_exit\<close> and
  \<^verbatim>\<open>pid_join\<close> returns only when it was called with the lock free, and leaves the
  lock free. \<^verbatim>\<open>target_parent\<close> does not: after its first \<^verbatim>\<open>lock_acquire\<close> it calls
  \<^verbatim>\<open>lock_acquire\<close> again on either branch, holding the lock, and never releases it.
\<close>

lemma store_lock: "store K p f s = Inr s' \<Longrightarrow> pidlock s' = pidlock s"
  by (auto simp: store_def tab_write_Inr elim!: kbind_InrE)

lemma pi_put_lock: "pi_put K pid r s = Inr s' \<Longrightarrow> pidlock s' = pidlock s"
  by (auto simp: pi_put_def tab_write_Inr elim!: KASSERT_InrE kbind_InrE)

lemma pi_drop_lock: "pi_drop K pid s = Inr s' \<Longrightarrow> pidlock s' = pidlock s"
  by (auto simp: pi_drop_def tab_write_Inr pidinfo_destroy_Inr
      elim!: KASSERT_InrE kbind_InrE split: option.splits)

lemma pid_alloc_lock:
  "pid_alloc K cur km cv s = Inr (s', r, out) \<Longrightarrow> \<not> pidlock s \<and> \<not> pidlock s'"
  by (auto simp: pid_alloc_def lock_acquire_Inr lock_release_Inr Let_def
      elim!: kbind_InrE KASSERT_InrE split: if_splits option.splits)

lemma pid_unalloc_lock: "pid_unalloc K cur p s = Inr s' \<Longrightarrow> \<not> pidlock s \<and> \<not> pidlock s'"
  by (auto simp: pid_unalloc_def lock_acquire_Inr lock_release_Inr
      elim!: kbind_InrE KASSERT_InrE split: if_splits option.splits)

lemma pid_detach_lock: "pid_detach K cur p s = Inr (s', r) \<Longrightarrow> \<not> pidlock s \<and> \<not> pidlock s'"
  by (auto simp: pid_detach_def lock_acquire_Inr lock_release_Inr
      elim!: kbind_InrE split: if_splits option.splits)

lemma pid_exit_lock: "pid_exit K cur st dd s = Inr s' \<Longrightarrow> \<not> pidlock s \<and> \<not> pidlock s'"
  by (auto simp: pid_exit_def lock_acquire_Inr lock_release_Inr
      elim!: kbind_InrE split: if_splits option.splits)

lemma join_finish_lock: "join_finish K p st s = Inr j \<Longrightarrow> \<not> pidlock (join_state j)"
  by (auto simp: join_finish_def lock_release_Inr elim!: kbind_InrE split: option.splits)

lemma pid_join_lock:
  "pid_join K cur p st fl s = Inr j \<Longrightarrow> \<not> pidlock s \<and> \<not> pidlock (join_state j)"
  by (auto simp: pid_join_def lock_acquire_Inr lock_release_Inr
      elim!: kbind_InrE split: if_splits option.splits dest!: join_finish_lock)

lemma pid_join_wake_lock:
  "pid_join_wake K p st s = Inr j \<Longrightarrow> \<not> pidlock s \<and> \<not> pidlock (join_state j)"
  by (auto simp: pid_join_wake_def lock_acquire_Inr elim!: kbind_InrE dest!: join_finish_lock)

lemma target_parent_deadlocks:
  assumes "\<not> pidlock s" and "live K s targetpid t" and "0 \<le> targetpid"
    and "targetpid \<noteq> INVALID_PID K"
  shows "target_parent K targetpid parentpid s = Inl SelfDeadlock"
  using assms(1) pi_get_live [OF assms(2-4)]
  by (simp add: target_parent_def lock_acquire_def)

text \<open>
  C9 at \<^verbatim>\<open>target_parent\<close>, for a target whose parent is the one asked for and for one
  whose parent is not: the helper stops in its second \<^verbatim>\<open>lock_acquire\<close>, the lock held
  and not released.
\<close>

theorem target_parent_keeps_lock:
  "target_parent exK 2 1 ex_child = Inl SelfDeadlock \<and>
   target_parent exK 2 7 ex_child = Inl SelfDeadlock"
  by (simp add: target_parent_def lock_acquire_def pi_get_def tab_read_def
      slot_def signed_modulo_int_def exK_def ex_child_def ex_bootrec_def)

subsection \<open>Allocation\<close>

text \<open>
  \<^verbatim>\<open>pidinfo_create\<close> sets four fields; \<^verbatim>\<open>detached\<close> keeps what the block of memory
  held.
\<close>

lemma pidinfo_create_fields:
  assumes "pidinfo_create K pid ppid (Some raw) cv = Inr (Some r)"
  shows "pi_pid r = pid \<and> pi_ppid r = ppid \<and> \<not> pi_exited r \<and> pi_exitstatus r = 47789 \<and>
         detached r = detached raw"
  using assms by (auto simp: pidinfo_create_def elim!: KASSERT_InrE split: if_splits)

text \<open>
  C2 at a block of memory whose \<^verbatim>\<open>detached\<close> byte is set: the record of the new pid 2
  has \<^verbatim>\<open>pi_exited\<close> false, \<^verbatim>\<open>pi_ppid\<close> the caller's pid 1 and the status
  \<^verbatim>\<open>0xbaad\<close>, but \<^verbatim>\<open>detached\<close> true.
\<close>

theorem pid_alloc_detached_uninitialised:
  "pid_alloc exK 1 (Some ex_dirty) True ex_boot =
     Inr (\<lparr>pidlock = False,
           pidinfo = [None, Some ex_bootrec,
                      Some \<lparr>pi_pid = 2, pi_ppid = 1, pi_exited = False,
                             pi_exitstatus = 47789, detached = True\<rparr>, None],
           nextpid = 3, nprocs = 2, destroyed = []\<rparr>, Val 0, Some 2)"
  by (simp add: pid_alloc_def lock_acquire_def lock_release_def alloc_scan.simps tab_read_def
      pidinfo_create_def pi_put_def tab_write_def inc_nextpid_def
      slot_def signed_modulo_int_def exK_def ex_boot_def ex_bootrec_def ex_dirty_def)

subsection \<open>Exit\<close>

text \<open>
  The example states can be reached: \<open>ex_child\<close>, \<open>ex_zombie\<close> and \<open>ex_reaped\<close> by
  an allocation, an exit and a detach after \<^verbatim>\<open>pid_bootstrap\<close>, and \<open>ex_family\<close> by
  allocations and releases that move the cursor up to \<^verbatim>\<open>PID_MAX\<close>.
\<close>

lemma replicate_4: "replicate 4 x = [x, x, x, x]"
  by (simp add: numeral_eq_Suc)

lemma ex_family_reachable:
  "kbind (pid_bootstrap exK True (Some ex_raw) True) (\<lambda>s.
   kbind (pid_alloc exK 1 (Some ex_raw) True s) (\<lambda>(s, r, out).
   kbind (pid_alloc exK 1 (Some ex_raw) True s) (\<lambda>(s, r, out).
   kbind (pid_unalloc exK 1 2 s) (\<lambda>s.
   kbind (pid_alloc exK 3 (Some ex_raw) True s) (\<lambda>(s, r, out).
   kbind (pid_alloc exK 3 (Some ex_raw) True s) (\<lambda>(s, r, out).
   kbind (pid_unalloc exK 3 6 s) (\<lambda>s.
   kbind (pid_alloc exK 3 (Some ex_raw) True s) (\<lambda>(s, r, out).
     Inr (s\<lparr>destroyed := []\<rparr>)))))))))
   = Inr ex_family"
  by (simp add: pid_bootstrap_def pid_alloc_def pid_unalloc_def alloc_scan.simps op_defs ex_defs
      replicate_4)

lemma ex_states_reachable:
  "pid_bootstrap exK True (Some ex_raw) True = Inr ex_boot"
  "pid_alloc exK 1 (Some ex_raw) True ex_boot = Inr (ex_child, Val 0, Some 2)"
  "pid_exit exK 2 42 False ex_child = Inr ex_zombie"
  by (simp_all add: pid_bootstrap_def pid_alloc_def pid_exit_def alloc_scan.simps op_defs ex_defs
      ex_child_def ex_zombie_def replicate_4)

text \<open>
  A record of another pid is not touched by what \<^verbatim>\<open>pid_exit\<close> does to one pid; and
  the loop of \<^verbatim>\<open>pid_exit\<close> stops before \<^verbatim>\<open>PID_MAX\<close>. So the record of pid
  \<^verbatim>\<open>PID_MAX\<close> is after \<^verbatim>\<open>pid_exit\<close> of another thread what it was before, also when
  that thread is its parent and asked for its children to be detached.
\<close>

lemma live_lock [simp]: "live K (s\<lparr>pidlock := b\<rparr>) q c = live K s q c"
  by (simp add: live_def)

lemma live_slot_neq:
  assumes "live K s q c" and "tab_read s (slot K p) = Inr (Some r)" and "pi_pid r = p" and "q \<noteq> p"
  shows "nat (slot K p) \<noteq> nat (slot K q)"
  using assms by (auto simp: live_def tab_read_def split: if_splits)

lemma store_live_other:
  assumes "store K p f s = Inr s'" and "live K s q c" and "q \<noteq> p"
  shows "live K s' q c"
proof -
  from assms(1) obtain r where r: "tab_read s (slot K p) = Inr (Some r)" "pi_pid r = p"
    and s': "s' = s\<lparr>pidinfo := (pidinfo s)[nat (slot K p) := Some (f r)]\<rparr>"
    by (auto simp: store_def deref_def tab_write_Inr elim!: kbind_InrE
        split: option.splits if_splits)
  from live_slot_neq [OF assms(2) r assms(3)] assms(2) show ?thesis
    by (auto simp: s' live_def tab_read_def split: if_splits)
qed

lemma pi_drop_live_other:
  assumes "pi_drop K p s = Inr s'" and "live K s q c" and "q \<noteq> p"
  shows "live K s' q c"
proof -
  from assms(1) obtain r where r: "tab_read s (slot K p) = Inr (Some r)" "pi_pid r = p"
    and s': "pidinfo s' = (pidinfo s)[nat (slot K p) := None]"
    by (auto simp: pi_drop_def pidinfo_destroy_Inr tab_write_Inr elim!: kbind_InrE KASSERT_InrE
        split: option.splits if_splits)
  from live_slot_neq [OF assms(2) r assms(3)] assms(2) show ?thesis
    by (auto simp: s' live_def tab_read_def split: if_splits)
qed

lemma pi_get_SomeD: "pi_get K p s = Inr (Some r) \<Longrightarrow> pi_pid r = p"
  by (auto simp: pi_get_def elim!: kbind_InrE KASSERT_InrE split: option.splits if_splits)

lemma pid_detach_steps:
  assumes "pid_detach K cur p s = Inr (s', r)"
  shows "(s' = s \<and> r \<noteq> Val 0) \<or>
     (\<exists>s1 s2.
        store K p (\<lambda>r. r\<lparr>pi_ppid := INVALID_PID K, detached := True\<rparr>) (s\<lparr>pidlock := True\<rparr>)
          = Inr s1 \<and>
        (s2 = s1 \<or> pi_drop K p s1 = Inr s2) \<and> s' = s2\<lparr>pidlock := False\<rparr> \<and> r = Val 0)"
  using assms
  apply (auto simp: pid_detach_def lock_acquire_Inr lock_release_Inr unlock_same
      elim!: kbind_InrE split: if_splits option.splits dest!: pi_get_SomeD)
   apply blast+
  done

lemma pid_detach_cases:
  assumes "pid_detach K cur p s = Inr (s', r)"
  obtains (refused) "s' = s" and "r \<noteq> Val 0"
  | (disowned) s1 s2 where
      "store K p (\<lambda>r. r\<lparr>pi_ppid := INVALID_PID K, detached := True\<rparr>) (s\<lparr>pidlock := True\<rparr>)
         = Inr s1"
      and "s2 = s1 \<or> pi_drop K p s1 = Inr s2" and "s' = s2\<lparr>pidlock := False\<rparr>"
      and "r = Val 0"
  using pid_detach_steps [OF assms] by blast

lemma pid_detach_live_other:
  assumes "pid_detach K cur p s = Inr (s', r)" and "live K s q c" and "q \<noteq> p"
  shows "live K s' q c"
  using assms(1)
proof (cases rule: pid_detach_cases)
  case refused
  with assms(2) show ?thesis by simp
next
  case (disowned s1 s2)
  from assms(2) have "live K (s\<lparr>pidlock := True\<rparr>) q c" by simp
  from store_live_other [OF disowned(1) this assms(3)] have "live K s1 q c" .
  with disowned(2) have "live K s2 q c"
    by (auto dest: pi_drop_live_other [OF _ _ assms(3)])
  with disowned(3) show ?thesis by simp
qed

lemma exit_body_cases:
  assumes "exit_body K cur i s = Inr s'"
  obtains (skip) "s' = s"
  | (disown) a b where "pid_detach K cur i (s\<lparr>pidlock := False\<rparr>) = Inr (a, b)"
      and "store K i (\<lambda>r. r\<lparr>detached := True\<rparr>) (a\<lparr>pidlock := True\<rparr>) = Inr s'"
  using assms
  by (auto simp: exit_body_def lock_acquire_Inr lock_release_Inr
      elim!: kbind_InrE split: if_splits option.splits dest!: pi_get_SomeD)

lemma exit_body_live_other:
  assumes "exit_body K cur i s = Inr s'" and "live K s q c" and "q \<noteq> i"
  shows "live K s' q c"
  using assms(1)
proof (cases rule: exit_body_cases)
  case skip
  with assms(2) show ?thesis by simp
next
  case (disown a b)
  from assms(2) have "live K (s\<lparr>pidlock := False\<rparr>) q c" by simp
  from pid_detach_live_other [OF disown(1) this assms(3)]
  have "live K (a\<lparr>pidlock := True\<rparr>) q c" by simp
  from store_live_other [OF disown(2) this assms(3)] show ?thesis .
qed

lemma exit_loop_live_other:
  "exit_loop K cur i s = Inr s' \<Longrightarrow> live K s q c \<Longrightarrow> q < i \<or> PID_MAX K \<le> q \<Longrightarrow> live K s' q c"
proof (induction K cur i s rule: exit_loop.induct)
  case (1 K cur i s)
  show ?case
  proof (cases "i < PID_MAX K")
    case True
    with "1.prems"(1) obtain s1 where
      body: "exit_body K cur i s = Inr s1" and rest: "exit_loop K cur (i + 1) s1 = Inr s'"
      by (auto simp: exit_loop.simps [of K cur i s] split: sum.splits)
    from True "1.prems"(3) have "q \<noteq> i" by auto
    from exit_body_live_other [OF body "1.prems"(2) this] have "live K s1 q c" .
    moreover from "1.prems"(3) have "q < i + 1 \<or> PID_MAX K \<le> q" by auto
    ultimately show ?thesis by (rule "1.IH" [OF True body rest])
  next
    case False
    with "1.prems" show ?thesis
      by (simp add: exit_loop.simps [of K cur i s])
  qed
qed

lemma pid_exit_steps:
  assumes "pid_exit K cur st dd s = Inr s'"
  shows "\<exists>s1 s2 s3 s4.
    store K cur (\<lambda>r. r\<lparr>pi_exited := True, pi_exitstatus := st\<rparr>) (s\<lparr>pidlock := True\<rparr>)
       = Inr s1
    \<and> (if dd then exit_loop K cur (PID_MIN K) s1 = Inr s2 else s2 = s1)
    \<and> (s4 = s2 \<or>
         (store K cur (\<lambda>r. r\<lparr>pi_ppid := INVALID_PID K\<rparr>) s2 = Inr s3 \<and>
          pi_drop K cur s3 = Inr s4))
    \<and> s' = s4\<lparr>pidlock := False\<rparr>"
  using assms
  apply (auto simp: pid_exit_def lock_acquire_Inr lock_release_Inr cv_broadcast_Inr deref_def
      elim!: kbind_InrE split: if_splits option.splits dest!: pi_get_SomeD)
     apply blast+
  done

lemma pid_exit_cases:
  assumes "pid_exit K cur st dd s = Inr s'"
  obtains s1 s2 s3 s4 where
    "store K cur (\<lambda>r. r\<lparr>pi_exited := True, pi_exitstatus := st\<rparr>) (s\<lparr>pidlock := True\<rparr>)
       = Inr s1"
    and "if dd then exit_loop K cur (PID_MIN K) s1 = Inr s2 else s2 = s1"
    and "s4 = s2 \<or>
         (store K cur (\<lambda>r. r\<lparr>pi_ppid := INVALID_PID K\<rparr>) s2 = Inr s3 \<and>
          pi_drop K cur s3 = Inr s4)"
    and "s' = s4\<lparr>pidlock := False\<rparr>"
  using pid_exit_steps [OF assms] by blast

lemma pid_exit_live_other:
  assumes "pid_exit K cur st dd s = Inr s'" and "live K s q c" and "q \<noteq> cur"
    and "dd \<longrightarrow> q < PID_MIN K \<or> PID_MAX K \<le> q"
  shows "live K s' q c"
proof -
  from assms(1) obtain s1 s2 s3 s4 where
    st: "store K cur (\<lambda>r. r\<lparr>pi_exited := True, pi_exitstatus := st\<rparr>) (s\<lparr>pidlock := True\<rparr>)
       = Inr s1"
    and lp: "if dd then exit_loop K cur (PID_MIN K) s1 = Inr s2 else s2 = s1"
    and dr: "s4 = s2 \<or>
         (store K cur (\<lambda>r. r\<lparr>pi_ppid := INVALID_PID K\<rparr>) s2 = Inr s3 \<and>
          pi_drop K cur s3 = Inr s4)"
    and fin: "s' = s4\<lparr>pidlock := False\<rparr>"
    by (rule pid_exit_cases)
  from assms(2) have "live K (s\<lparr>pidlock := True\<rparr>) q c" by simp
  from store_live_other [OF st this assms(3)] have l1: "live K s1 q c" .
  have l2: "live K s2 q c"
  proof (cases dd)
    case True
    with lp have "exit_loop K cur (PID_MIN K) s1 = Inr s2" by simp
    from exit_loop_live_other [OF this l1] True assms(4) show ?thesis by simp
  next
    case False
    with lp l1 show ?thesis by simp
  qed
  from dr l2 have "live K s4 q c"
    by (auto dest: store_live_other [OF _ _ assms(3)] pi_drop_live_other [OF _ _ assms(3)])
  with fin show ?thesis by simp
qed

lemma pid_exit_skips_PID_MAX:
  assumes "pid_exit K cur st True s = Inr s'" and "live K s (PID_MAX K) c"
    and "cur \<noteq> PID_MAX K"
  shows "live K s' (PID_MAX K) c"
  using pid_exit_live_other [OF assms(1,2)] assms(3) by simp

text \<open>
  C3 at a thread with the children 4 and \<^verbatim>\<open>PID_MAX\<close> (10): after
  \<^verbatim>\<open>pid_exit(0, true)\<close> of thread 3, child 4 has no parent and is detached, child 10
  still has the parent 3 and is not detached.
\<close>

theorem pid_exit_leaves_child_PID_MAX:
  "pid_exit exK 3 0 True ex_family =
     Inr \<lparr>pidlock = False,
          pidinfo = [Some \<lparr>pi_pid = 4, pi_ppid = 0, pi_exited = False,
                            pi_exitstatus = 47789, detached = True\<rparr>,
                     Some ex_bootrec,
                     Some \<lparr>pi_pid = 10, pi_ppid = 3, pi_exited = False,
                            pi_exitstatus = 47789, detached = False\<rparr>,
                     Some \<lparr>pi_pid = 3, pi_ppid = 1, pi_exited = True,
                            pi_exitstatus = 0, detached = False\<rparr>],
          nextpid = 2, nprocs = 4, destroyed = []\<rparr>"
  by (simp add: pid_exit_def exit_loop.simps exit_body_def pid_detach_def op_defs ex_defs)

text \<open>
  The scan of \<^verbatim>\<open>pid_alloc\<close>. With the lock held, the cursor in the pid range and a
  free slot in the table, the loop returns with the cursor on a pid of the range whose
  slot is free, and its assertion holds: \<open>k\<close> steps reach a free slot that lies
  \<open>k\<close> pids ahead (\<open>alloc_scan_direct\<close>), and from anywhere the cursor gets at most
  to \<^verbatim>\<open>PID_MAX\<close>, wraps to \<^verbatim>\<open>PID_MIN\<close> and finds a free slot among the next
  \<^verbatim>\<open>PROCS_MAX\<close> pids (\<open>alloc_scan_wrap\<close>).
\<close>

lemma slot_mod: "0 \<le> p \<Longrightarrow> 0 < PROCS_MAX K \<Longrightarrow> slot K p = p mod PROCS_MAX K"
  by (cases "p = 0") (simp_all add: slot_def signed_modulo_int_def)

lemma tab_read_slot:
  assumes "0 \<le> p" and "0 < PROCS_MAX K" and "length (pidinfo s) = nat (PROCS_MAX K)"
  shows "tab_read s (slot K p) = Inr (pidinfo s ! nat (p mod PROCS_MAX K))"
  using assms by (simp add: slot_mod tab_read_def)

lemma nextpid_update_same: "s\<lparr>nextpid := nextpid s\<rparr> = s"
  by (cases s) simp

lemma alloc_scan_direct:
  assumes "0 < PROCS_MAX K" and "length (pidinfo s) = nat (PROCS_MAX K)" and "pidlock s"
    and "0 \<le> nextpid s" and "nextpid s + int k \<le> PID_MAX K"
    and "pidinfo s ! nat ((nextpid s + int k) mod PROCS_MAX K) = None"
    and "count + int k < PROCS_MAX K * 2 + 5"
  shows "\<exists>p. alloc_scan K s count = Inr (s\<lparr>nextpid := p\<rparr>) \<and> nextpid s \<le> p \<and>
             p \<le> nextpid s + int k \<and> pidinfo s ! nat (p mod PROCS_MAX K) = None"
  using assms
proof (induction k arbitrary: s count)
  case 0
  then have "tab_read s (slot K (nextpid s)) = Inr None"
    by (simp add: tab_read_slot)
  then have "alloc_scan K s count = Inr s"
    by (simp add: alloc_scan.simps [of K s count])
  with 0 show ?case by (intro exI [of _ "nextpid s"]) (simp add: nextpid_update_same)
next
  case (Suc k)
  have rd: "tab_read s (slot K (nextpid s)) = Inr (pidinfo s ! nat (nextpid s mod PROCS_MAX K))"
    using Suc.prems by (simp add: tab_read_slot)
  show ?case
  proof (cases "pidinfo s ! nat (nextpid s mod PROCS_MAX K)")
    case None
    with rd have "alloc_scan K s count = Inr s"
      by (simp add: alloc_scan.simps [of K s count])
    with None show ?thesis by (intro exI [of _ "nextpid s"]) (simp add: nextpid_update_same)
  next
    case (Some r)
    let ?s1 = "s\<lparr>nextpid := nextpid s + 1\<rparr>"
    from Suc.prems have inc: "inc_nextpid K s = Inr ?s1"
      by (simp add: inc_nextpid_def)
    from Suc.prems have lt: "count < PROCS_MAX K * 2 + 5" by simp
    from rd Some inc lt have unf: "alloc_scan K s count = alloc_scan K ?s1 (count + 1)"
      by (simp add: alloc_scan.simps [of K s count])
    have "\<exists>p. alloc_scan K ?s1 (count + 1) = Inr (?s1\<lparr>nextpid := p\<rparr>) \<and> nextpid ?s1 \<le> p \<and>
             p \<le> nextpid ?s1 + int k \<and> pidinfo ?s1 ! nat (p mod PROCS_MAX K) = None"
      using Suc.prems by (intro Suc.IH) (simp_all add: add.assoc)
    then obtain p where "alloc_scan K ?s1 (count + 1) = Inr (?s1\<lparr>nextpid := p\<rparr>)"
      "nextpid s + 1 \<le> p" "p \<le> nextpid s + 1 + int k" "pidinfo s ! nat (p mod PROCS_MAX K) = None"
      by auto
    with unf show ?thesis by (intro exI [of _ p]) simp
  qed
qed

lemma mod_reach:
  assumes "0 < (m::int)" and "0 \<le> j" and "j < m"
  shows "\<exists>k. int k < m \<and> (b + int k) mod m = j"
proof -
  let ?k = "nat ((j - b) mod m)"
  have "int ?k = (j - b) mod m" using assms by simp
  moreover have "(j - b) mod m < m" using assms by simp
  moreover have "(b + (j - b) mod m) mod m = j"
    using assms by (simp add: mod_add_right_eq)
  ultimately show ?thesis by (intro exI [of _ ?k]) simp
qed

lemma alloc_scan_wrap:
  assumes "consts_ok K" and "length (pidinfo s) = nat (PROCS_MAX K)" and "pidlock s"
    and "PID_MIN K \<le> nextpid s" and "nextpid s \<le> PID_MAX K"
    and "j < length (pidinfo s)" and "pidinfo s ! j = None"
    and "d = nat (PID_MAX K - nextpid s)"
    and "count + int d + PROCS_MAX K + 1 \<le> PROCS_MAX K * 2 + 5"
  shows "\<exists>p. alloc_scan K s count = Inr (s\<lparr>nextpid := p\<rparr>) \<and> PID_MIN K \<le> p \<and>
             p \<le> PID_MAX K \<and> pidinfo s ! nat (p mod PROCS_MAX K) = None"
  using assms
proof (induction d arbitrary: s count)
  case 0
  from \<open>consts_ok K\<close> have K: "0 < PROCS_MAX K" "0 \<le> PID_MIN K"
    "PID_MIN K + PROCS_MAX K - 1 \<le> PID_MAX K"
    by (auto simp: consts_ok_def)
  from 0 have np: "nextpid s = PID_MAX K" by simp
  have rd: "tab_read s (slot K (nextpid s)) = Inr (pidinfo s ! nat (nextpid s mod PROCS_MAX K))"
    using 0 K by (simp add: tab_read_slot)
  show ?case
  proof (cases "pidinfo s ! nat (nextpid s mod PROCS_MAX K)")
    case None
    with rd have "alloc_scan K s count = Inr s"
      by (simp add: alloc_scan.simps [of K s count])
    with None 0 show ?thesis by (intro exI [of _ "nextpid s"]) (simp add: nextpid_update_same)
  next
    case (Some r)
    let ?s1 = "s\<lparr>nextpid := PID_MIN K\<rparr>"
    from 0 np have inc: "inc_nextpid K s = Inr ?s1"
      by (simp add: inc_nextpid_def)
    from 0 K have lt: "count < PROCS_MAX K * 2 + 5" by simp
    from rd Some inc lt have unf: "alloc_scan K s count = alloc_scan K ?s1 (count + 1)"
      by (simp add: alloc_scan.simps [of K s count])
    from 0 K have "0 \<le> int j" "int j < PROCS_MAX K" by simp_all
    from mod_reach [OF K(1) this, of "PID_MIN K"] obtain k where
      k: "int k < PROCS_MAX K" "(PID_MIN K + int k) mod PROCS_MAX K = int j"
      by blast
    have "\<exists>p. alloc_scan K ?s1 (count + 1) = Inr (?s1\<lparr>nextpid := p\<rparr>) \<and> nextpid ?s1 \<le> p \<and>
             p \<le> nextpid ?s1 + int k \<and> pidinfo ?s1 ! nat (p mod PROCS_MAX K) = None"
      using 0 K k by (intro alloc_scan_direct) simp_all
    then obtain p where "alloc_scan K ?s1 (count + 1) = Inr (?s1\<lparr>nextpid := p\<rparr>)"
      "PID_MIN K \<le> p" "p \<le> PID_MIN K + int k" "pidinfo s ! nat (p mod PROCS_MAX K) = None"
      by auto
    with unf k K show ?thesis by (intro exI [of _ p]) simp
  qed
next
  case (Suc d)
  from \<open>consts_ok K\<close> have K: "0 < PROCS_MAX K" "0 \<le> PID_MIN K"
    by (auto simp: consts_ok_def)
  from Suc.prems have np: "nextpid s < PID_MAX K" by simp
  have rd: "tab_read s (slot K (nextpid s)) = Inr (pidinfo s ! nat (nextpid s mod PROCS_MAX K))"
    using Suc.prems K by (simp add: tab_read_slot)
  show ?case
  proof (cases "pidinfo s ! nat (nextpid s mod PROCS_MAX K)")
    case None
    with rd have "alloc_scan K s count = Inr s"
      by (simp add: alloc_scan.simps [of K s count])
    with None Suc.prems show ?thesis
      by (intro exI [of _ "nextpid s"]) (simp add: nextpid_update_same)
  next
    case (Some r)
    let ?s1 = "s\<lparr>nextpid := nextpid s + 1\<rparr>"
    from Suc.prems np have inc: "inc_nextpid K s = Inr ?s1"
      by (simp add: inc_nextpid_def)
    from Suc.prems K have lt: "count < PROCS_MAX K * 2 + 5" by simp
    from rd Some inc lt have unf: "alloc_scan K s count = alloc_scan K ?s1 (count + 1)"
      by (simp add: alloc_scan.simps [of K s count])
    have "\<exists>p. alloc_scan K ?s1 (count + 1) = Inr (?s1\<lparr>nextpid := p\<rparr>) \<and> PID_MIN K \<le> p \<and>
             p \<le> PID_MAX K \<and> pidinfo ?s1 ! nat (p mod PROCS_MAX K) = None"
      using Suc.prems np by (intro Suc.IH [of ?s1 "count + 1"]) simp_all
    then obtain p where "alloc_scan K ?s1 (count + 1) = Inr (?s1\<lparr>nextpid := p\<rparr>)"
      "PID_MIN K \<le> p" "p \<le> PID_MAX K" "pidinfo s ! nat (p mod PROCS_MAX K) = None"
      by auto
    with unf show ?thesis by (intro exI [of _ p]) simp
  qed
qed

lemma alloc_scan_finds:
  assumes "consts_ok K" and "length (pidinfo s) = nat (PROCS_MAX K)" and "pidlock s"
    and "PID_MIN K \<le> nextpid s" and "nextpid s \<le> PID_MAX K"
    and "j < length (pidinfo s)" and "pidinfo s ! j = None"
  shows "\<exists>p. alloc_scan K s 0 = Inr (s\<lparr>nextpid := p\<rparr>) \<and> PID_MIN K \<le> p \<and>
             p \<le> PID_MAX K \<and> pidinfo s ! nat (p mod PROCS_MAX K) = None"
proof (cases "PID_MAX K - nextpid s \<le> PROCS_MAX K + 4")
  case True
  with assms show ?thesis
    by (intro alloc_scan_wrap [where j = j and d = "nat (PID_MAX K - nextpid s)"]) simp_all
next
  case False
  from \<open>consts_ok K\<close> have K: "0 < PROCS_MAX K" "0 \<le> PID_MIN K"
    by (auto simp: consts_ok_def)
  from assms K have "0 \<le> int j" "int j < PROCS_MAX K" by simp_all
  from mod_reach [OF K(1) this, of "nextpid s"] obtain k where
    k: "int k < PROCS_MAX K" "(nextpid s + int k) mod PROCS_MAX K = int j"
    by blast
  have "\<exists>p. alloc_scan K s 0 = Inr (s\<lparr>nextpid := p\<rparr>) \<and> nextpid s \<le> p \<and>
             p \<le> nextpid s + int k \<and> pidinfo s ! nat (p mod PROCS_MAX K) = None"
    using assms K k False by (intro alloc_scan_direct) simp_all
  with k False assms(4) show ?thesis by fastforce
qed

lemma exists_free_slot:
  assumes "length (filter (\<lambda>e. e \<noteq> None) xs) < length xs"
  shows "\<exists>j<length xs. xs ! j = None"
proof (rule ccontr)
  assume "\<not> (\<exists>j<length xs. xs ! j = None)"
  then have "\<forall>e \<in> set xs. e \<noteq> None"
    by (auto simp: in_set_conv_nth)
  then have "filter (\<lambda>e. e \<noteq> None) xs = xs"
    by (simp add: filter_id_conv)
  with assms show False by simp
qed

lemma occupied_update:
  "j < length xs \<Longrightarrow> xs ! j = None \<Longrightarrow>
   length (filter (\<lambda>e. e \<noteq> None) (xs[j := Some r])) = Suc (length (filter (\<lambda>e. e \<noteq> None) xs))"
proof (induction xs arbitrary: j)
  case Nil
  then show ?case by simp
next
  case (Cons x xs)
  then show ?case by (cases j) auto
qed

lemma pid_alloc_full:
  assumes "\<not> pidlock s" and "cur \<noteq> INVALID_PID K" and "nprocs s = PROCS_MAX K"
  shows "pid_alloc K cur km cv s = Inr (s, Pos EAGAIN, None)"
  using assms by (simp add: pid_alloc_def lock_acquire_def lock_release_def unlock_same)

lemma pid_alloc_scanned:
  assumes "consts_ok K" and "table_ok K s" and "cur \<noteq> INVALID_PID K"
    and "occupied s \<noteq> nat (PROCS_MAX K)"
  shows "\<exists>p. PID_MIN K \<le> p \<and> p \<le> PID_MAX K \<and> pidinfo s ! nat (p mod PROCS_MAX K) = None \<and>
     pid_alloc K cur km cv s =
       (case km of
          None \<Rightarrow> Inr (s\<lparr>nextpid := p\<rparr>, Pos ENOMEM, None)
        | Some raw \<Rightarrow>
            if \<not> cv then Inr (s\<lparr>nextpid := p\<rparr>, Pos ENOMEM, None)
            else Inr (s\<lparr>pidinfo := (pidinfo s)[nat (p mod PROCS_MAX K) :=
                          Some (raw\<lparr>pi_pid := p, pi_ppid := cur, pi_exited := False,
                                     pi_exitstatus := 47789\<rparr>)],
                        nprocs := nprocs s + 1,
                        nextpid := (if p + 1 > PID_MAX K then PID_MIN K else p + 1)\<rparr>,
                      Val 0, Some p))"
proof -
  from \<open>consts_ok K\<close> have K: "0 < PROCS_MAX K" "0 \<le> PID_MIN K" "INVALID_PID K < PID_MIN K"
    by (auto simp: consts_ok_def)
  from \<open>table_ok K s\<close> have T: "\<not> pidlock s" "length (pidinfo s) = nat (PROCS_MAX K)"
    "PID_MIN K \<le> nextpid s" "nextpid s \<le> PID_MAX K" "nprocs s = int (occupied s)"
    by (auto simp: table_ok_def)
  have "occupied s \<le> length (pidinfo s)" by (simp add: occupied_def)
  with assms(4) T(2) have less: "length (filter (\<lambda>e. e \<noteq> None) (pidinfo s)) < length (pidinfo s)"
    by (simp add: occupied_def)
  from exists_free_slot [OF less] obtain j where j: "j < length (pidinfo s)" "pidinfo s ! j = None"
    by blast
  let ?s1 = "s\<lparr>pidlock := True\<rparr>"
  have "\<exists>p. alloc_scan K ?s1 0 = Inr (?s1\<lparr>nextpid := p\<rparr>) \<and> PID_MIN K \<le> p \<and>
             p \<le> PID_MAX K \<and> pidinfo ?s1 ! nat (p mod PROCS_MAX K) = None"
    using assms(1) T j by (intro alloc_scan_finds [where j = j]) simp_all
  then obtain p where scan: "alloc_scan K ?s1 0 = Inr (?s1\<lparr>nextpid := p\<rparr>)"
    and p: "PID_MIN K \<le> p" "p \<le> PID_MAX K" "pidinfo s ! nat (p mod PROCS_MAX K) = None"
    by auto
  from p K have pv: "p \<noteq> INVALID_PID K" "0 \<le> p" by auto
  have nfull: "nprocs s \<noteq> PROCS_MAX K"
    using T(5) assms(4) K(1) by auto
  have rd: "tab_read (s\<lparr>pidlock := True, nextpid := p\<rparr>) (slot K p) = Inr None"
    using tab_read_slot [OF pv(2) K(1), of "s\<lparr>pidlock := True, nextpid := p\<rparr>"] T(2) p(3)
    by simp
  have bnd: "0 \<le> slot K p" "slot K p < int (length (pidinfo s))" "slot K p = p mod PROCS_MAX K"
    using pv K T(2) by (simp_all add: slot_mod)
  have "pid_alloc K cur km cv s =
       (case km of
          None \<Rightarrow> Inr (s\<lparr>nextpid := p\<rparr>, Pos ENOMEM, None)
        | Some raw \<Rightarrow>
            if \<not> cv then Inr (s\<lparr>nextpid := p\<rparr>, Pos ENOMEM, None)
            else Inr (s\<lparr>pidinfo := (pidinfo s)[nat (p mod PROCS_MAX K) :=
                          Some (raw\<lparr>pi_pid := p, pi_ppid := cur, pi_exited := False,
                                     pi_exitstatus := 47789\<rparr>)],
                        nprocs := nprocs s + 1,
                        nextpid := (if p + 1 > PID_MAX K then PID_MIN K else p + 1)\<rparr>,
                      Val 0, Some p))"
    using assms(3) T(1) nfull scan pv rd bnd
    by (cases s)
      (auto simp: pid_alloc_def lock_acquire_def lock_release_def pidinfo_create_def
        pi_put_def tab_write_def inc_nextpid_def Let_def split: option.splits)
  with p show ?thesis by blast
qed

lemma table_ok_fresh:
  assumes "consts_ok K" and "table_ok K s" and "0 \<le> p"
    and "pidinfo s ! nat (p mod PROCS_MAX K) = None"
  shows "\<forall>e \<in> set (pidinfo s). \<forall>y. e = Some y \<longrightarrow> pi_pid y \<noteq> p"
proof (intro ballI allI impI notI)
  fix e y assume e: "e \<in> set (pidinfo s)" "e = Some y" "pi_pid y = p"
  from \<open>consts_ok K\<close> have K: "0 < PROCS_MAX K" by (simp add: consts_ok_def)
  from e(1) obtain i where i: "i < length (pidinfo s)" "pidinfo s ! i = e"
    by (auto simp: in_set_conv_nth)
  with e assms(2) have "slot K p = int i" by (auto simp: table_ok_def)
  with assms(3) K have "nat (p mod PROCS_MAX K) = i" by (simp add: slot_mod)
  with assms(4) i e show False by simp
qed

lemma table_ok_put:
  assumes "consts_ok K" and "table_ok K s" and "PID_MIN K \<le> p" and "p \<le> PID_MAX K"
    and "pidinfo s ! nat (p mod PROCS_MAX K) = None" and "pi_pid x = p"
  shows "table_ok K (s\<lparr>pidinfo := (pidinfo s)[nat (p mod PROCS_MAX K) := Some x],
                       nprocs := nprocs s + 1,
                       nextpid := (if p + 1 > PID_MAX K then PID_MIN K else p + 1)\<rparr>)"
proof -
  from \<open>consts_ok K\<close> have K: "0 < PROCS_MAX K" "0 \<le> PID_MIN K"
    "PID_MIN K + PROCS_MAX K - 1 \<le> PID_MAX K"
    by (auto simp: consts_ok_def)
  from \<open>table_ok K s\<close> have T: "\<not> pidlock s" "length (pidinfo s) = nat (PROCS_MAX K)"
    "nprocs s = int (occupied s)"
    and sl: "\<And>j r. j < length (pidinfo s) \<Longrightarrow> pidinfo s ! j = Some r \<Longrightarrow>
               0 \<le> pi_pid r \<and> slot K (pi_pid r) = int j"
    by (auto simp: table_ok_def)
  let ?j = "nat (p mod PROCS_MAX K)"
  have j: "?j < length (pidinfo s)" using K T(2) by simp
  have p0: "0 \<le> p" using assms(3) K by simp
  have slx: "slot K p = int ?j" using p0 K by (simp add: slot_mod)
  have occ: "occupied (s\<lparr>pidinfo := (pidinfo s)[?j := Some x], nprocs := nprocs s + 1,
                nextpid := (if p + 1 > PID_MAX K then PID_MIN K else p + 1)\<rparr>) = Suc (occupied s)"
    using occupied_update [OF j assms(5)] by (simp add: occupied_def)
  have slots: "0 \<le> pi_pid r \<and> slot K (pi_pid r) = int i"
    if "i < length (pidinfo s)" "(pidinfo s)[?j := Some x] ! i = Some r" for i r
  proof (cases "i = ?j")
    case True
    with that j have "r = x" by simp
    with True assms(6) p0 slx show ?thesis by simp
  next
    case False
    with that have "pidinfo s ! i = Some r" by simp
    from sl [OF that(1) this] show ?thesis .
  qed
  show ?thesis
    unfolding table_ok_def
    using T K assms(3,4) occ slots by auto
qed

text \<open>\<^verbatim>\<open>pid_bootstrap\<close> leaves a well-formed table that holds the bootstrap record.\<close>

lemma pid_bootstrap_table_ok:
  assumes "consts_ok K" and "pid_bootstrap K lk km cv = Inr s"
  shows "table_ok K s \<and> destroyed s = [] \<and>
         (\<exists>r. live K s (BOOTUP_PID K) r \<and> pi_ppid r = INVALID_PID K \<and> \<not> pi_exited r)"
proof -
  from \<open>consts_ok K\<close> have K: "0 < PROCS_MAX K" "0 \<le> BOOTUP_PID K" "BOOTUP_PID K < PROCS_MAX K"
    "BOOTUP_PID K \<noteq> INVALID_PID K" "PID_MIN K + PROCS_MAX K - 1 \<le> PID_MAX K"
    by (auto simp: consts_ok_def)
  let ?n = "nat (PROCS_MAX K)" and ?j = "nat (BOOTUP_PID K)"
  from assms(2) K obtain raw where km: "km = Some raw" and
    s: "s = \<lparr>pidlock = False,
             pidinfo = (replicate ?n None)[?j := Some (raw\<lparr>pi_pid := BOOTUP_PID K,
                          pi_ppid := INVALID_PID K, pi_exited := False, pi_exitstatus := 47789\<rparr>)],
             nextpid = PID_MIN K, nprocs = 1, destroyed = []\<rparr>"
    by (auto simp: pid_bootstrap_def pidinfo_create_def tab_write_def Let_def
        split: if_splits option.splits)
  have j: "?j < length (replicate ?n (None :: pidinfo option))" using K by simp
  have occ: "occupied s = 1"
    using occupied_update [OF j, of "raw\<lparr>pi_pid := BOOTUP_PID K,
                          pi_ppid := INVALID_PID K, pi_exited := False, pi_exitstatus := 47789\<rparr>"] j
    by (simp add: s occupied_def)
  have sl: "slot K (BOOTUP_PID K) = int ?j" using K by (simp add: slot_mod)
  have "table_ok K s"
    unfolding table_ok_def using K occ sl j
    by (auto simp: s nth_list_update split: if_splits)
  moreover have "live K s (BOOTUP_PID K) (raw\<lparr>pi_pid := BOOTUP_PID K,
                          pi_ppid := INVALID_PID K, pi_exited := False, pi_exitstatus := 47789\<rparr>)"
    using K j sl by (simp add: live_def s tab_read_def)
  ultimately show ?thesis by (auto simp: s)
qed

lemma table_ok_ex_boot: "table_ok exK ex_boot"
  by (simp add: table_ok_def occupied_def ex_defs All_less_Suc)

lemma table_ok_ex_family: "table_ok exK ex_family"
  by (simp add: table_ok_def occupied_def ex_defs All_less_Suc)

text \<open>
  C4. On a well-formed table, \<^verbatim>\<open>pid_alloc\<close> by a thread with a pid always returns. It
  returns \<^verbatim>\<open>EAGAIN\<close> exactly when all \<^verbatim>\<open>PROCS_MAX\<close> slots are in use. When memory
  is available and a slot is free it succeeds. When it succeeds, the pid it stored is
  in \<^verbatim>\<open>[PID_MIN, PID_MAX]\<close>, no record of the table before the call had that pid,
  the table now holds a record for it whose parent is the caller, \<^verbatim>\<open>nprocs\<close> and
  the number of slots in use went up by one, the latter is at most \<^verbatim>\<open>PROCS_MAX\<close>,
  and the table is well-formed again.
\<close>

theorem pid_alloc_spec:
  assumes "consts_ok K" and "table_ok K s" and "cur \<noteq> INVALID_PID K"
  shows "\<exists>s' r out. pid_alloc K cur km cv s = Inr (s', r, out) \<and>
     (r = Pos EAGAIN \<longleftrightarrow> occupied s = nat (PROCS_MAX K)) \<and>
     (km \<noteq> None \<and> cv \<and> occupied s \<noteq> nat (PROCS_MAX K) \<longrightarrow> r = Val 0) \<and>
     (r = Val 0 \<longrightarrow>
        (\<exists>pid x. out = Some pid \<and> PID_MIN K \<le> pid \<and> pid \<le> PID_MAX K \<and>
           (\<forall>e \<in> set (pidinfo s). \<forall>y. e = Some y \<longrightarrow> pi_pid y \<noteq> pid) \<and>
           live K s' pid x \<and> pi_ppid x = cur \<and>
           nprocs s' = nprocs s + 1 \<and> occupied s' = occupied s + 1 \<and>
           occupied s' \<le> nat (PROCS_MAX K) \<and> table_ok K s'))"
proof (cases "occupied s = nat (PROCS_MAX K)")
  case True
  from \<open>consts_ok K\<close> have "0 < PROCS_MAX K" by (simp add: consts_ok_def)
  with True \<open>table_ok K s\<close> have "\<not> pidlock s" "nprocs s = PROCS_MAX K"
    by (auto simp: table_ok_def)
  from pid_alloc_full [OF this(1) assms(3) this(2)] True show ?thesis by simp
next
  case False
  from \<open>consts_ok K\<close> have K: "0 < PROCS_MAX K" "0 \<le> PID_MIN K"
    by (auto simp: consts_ok_def)
  from \<open>table_ok K s\<close> have len: "length (pidinfo s) = nat (PROCS_MAX K)"
    by (simp add: table_ok_def)
  from pid_alloc_scanned [OF assms False, of km cv] obtain p where
    p: "PID_MIN K \<le> p" "p \<le> PID_MAX K" "pidinfo s ! nat (p mod PROCS_MAX K) = None"
    and res: "pid_alloc K cur km cv s =
       (case km of
          None \<Rightarrow> Inr (s\<lparr>nextpid := p\<rparr>, Pos ENOMEM, None)
        | Some raw \<Rightarrow>
            if \<not> cv then Inr (s\<lparr>nextpid := p\<rparr>, Pos ENOMEM, None)
            else Inr (s\<lparr>pidinfo := (pidinfo s)[nat (p mod PROCS_MAX K) :=
                          Some (raw\<lparr>pi_pid := p, pi_ppid := cur, pi_exited := False,
                                     pi_exitstatus := 47789\<rparr>)],
                        nprocs := nprocs s + 1,
                        nextpid := (if p + 1 > PID_MAX K then PID_MIN K else p + 1)\<rparr>,
                      Val 0, Some p))"
    by blast
  show ?thesis
  proof (cases "km \<noteq> None \<and> cv")
    case nomem: False
    with res False show ?thesis by (auto split: option.splits)
  next
    case True
    then obtain raw where km: "km = Some raw" and cv: cv by auto
    let ?x = "raw\<lparr>pi_pid := p, pi_ppid := cur, pi_exited := False, pi_exitstatus := 47789\<rparr>"
    let ?s' = "s\<lparr>pidinfo := (pidinfo s)[nat (p mod PROCS_MAX K) := Some ?x],
                 nprocs := nprocs s + 1,
                 nextpid := (if p + 1 > PID_MAX K then PID_MIN K else p + 1)\<rparr>"
    from res km cv have run: "pid_alloc K cur km cv s = Inr (?s', Val 0, Some p)" by simp
    have p0: "0 \<le> p" using p(1) K by simp
    have j: "nat (p mod PROCS_MAX K) < length (pidinfo s)" using K len by simp
    have fresh: "\<forall>e \<in> set (pidinfo s). \<forall>y. e = Some y \<longrightarrow> pi_pid y \<noteq> p"
      by (rule table_ok_fresh [OF assms(1,2) p0 p(3)])
    have ok: "table_ok K ?s'"
      by (rule table_ok_put [OF assms(1,2) p]) simp
    have lv: "live K ?s' p ?x"
      using p0 K len j by (simp add: live_def slot_mod tab_read_def)
    have occ: "occupied ?s' = occupied s + 1"
      using occupied_update [OF j p(3)] by (simp add: occupied_def)
    have "occupied ?s' \<le> length (pidinfo ?s')"
      unfolding occupied_def by (rule length_filter_le)
    with len have le: "occupied ?s' \<le> nat (PROCS_MAX K)" by simp
    from run False p fresh ok lv occ le show ?thesis
      by (intro exI [of _ ?s'] exI [of _ "Val 0"] exI [of _ "Some p"] conjI impI
          exI [of _ p] exI [of _ ?x]) simp_all
  qed
qed

theorem pid_alloc_spec_witness:
  "consts_ok exK \<and> table_ok exK ex_boot \<and> 1 \<noteq> INVALID_PID exK \<and>
   pid_alloc exK 1 (Some ex_raw) True ex_boot = Inr (ex_child, Val 0, Some 2) \<and>
   occupied ex_boot \<noteq> nat (PROCS_MAX exK) \<and>
   PID_MIN exK \<le> 2 \<and> 2 \<le> PID_MAX exK \<and> nprocs ex_child = nprocs ex_boot + 1 \<and>
   occupied ex_child = occupied ex_boot + 1 \<and> table_ok exK ex_child"
proof -
  have inv: "1 \<noteq> INVALID_PID exK" by (simp add: exK_def)
  from pid_alloc_spec [OF consts_ok_exK table_ok_ex_boot inv, of "Some ex_raw" True]
  show ?thesis
    using consts_ok_exK table_ok_ex_boot inv
    by (auto simp: ex_states_reachable)
qed

end
